theory Spec2Isabelle
  imports Main
begin

section \<open>The DNS handler of an autoscaling group: data and environment\<close>

text \<open>
  This theory embeds \<^verbatim>\<open>src/lambda/autoscale/autoscale.py\<close>. The module talks to three
  AWS services through boto3 clients that are process-wide globals. Here the services
  are an explicit environment: what they answer is a field of the record \<open>env\<close>,
  the one piece of shared state the module writes (the record sets of the DNS zone) is a
  field of the record \<open>world\<close>, and every program is a function from a world to a
  result and a new world. The world also keeps the API calls that were issued and the log
  records that were emitted, in order.

  A Python exception is the left injection of the result. Three kinds of exception can
  occur: a missing dictionary key, a \<^verbatim>\<open>botocore.exceptions.ClientError\<close> with its error
  code, and any other exception of the client library (a transport failure, say), which
  the module's \<^verbatim>\<open>except ClientError\<close> clauses do not catch.
\<close>

datatype error = KeyError string | ClientError string | BotoCoreError string

text \<open>What a service call can fail with; \<open>exn_of\<close> is the exception the caller sees.\<close>

datatype fault = ClientFault string | TransportFault string

fun exn_of :: "fault \<Rightarrow> error" where
  "exn_of (ClientFault code) = ClientError code"
| "exn_of (TransportFault name) = BotoCoreError name"

datatype level = DEBUG | INFO | WARNING | ERROR

text \<open>
  The calls the module issues. A paginated call is recorded once, when the iteration
  over its pages starts. The resource records of a change batch are a set: the module
  builds the list from a Python set, whose order carries no meaning.
\<close>

datatype api_call =
    DescribeTags string
  | DescribeInstancesOfGroup string
  | DescribeInstancesById string
  | CreateTags string string string
  | ListResourceRecordSets string string string
  | ChangeResourceRecordSets string string string string int "string set"
  | CompleteLifecycleAction string string string string string

text \<open>
  An instance as \<^verbatim>\<open>describe_instances\<close> returns it. The code reads
  \<^verbatim>\<open>instance["Tags"]\<close> with a subscript, which raises when the key is absent, and the
  address fields with \<^verbatim>\<open>.get\<close>, which does not.
\<close>

record ec2_instance =
  InstanceId :: string
  Tags :: "(string \<times> string) list option"
  PublicIpAddress :: "string option"
  PrivateIpAddress :: "string option"
  Ipv6Address :: "string option"

record rr_set =
  rr_Name :: string
  rr_Type :: string
  ResourceRecords :: "string set"

text \<open>
  The environment of one invocation. A paginated answer is the list of its pages, each
  either a page or the fault at which the iteration stops. The two module constants read
  from the process environment (\<^verbatim>\<open>USE_PUBLIC_IP\<close>, \<^verbatim>\<open>ROUTE53_TTL\<close>) are fields too.
  \<open>other_rr_sets\<close> is what the zone lists from a starting point at which it has no record
  set of the requested name and kind.
\<close>

record env =
  USE_PUBLIC_IP :: bool
  ROUTE53_TTL :: int
  describe_tags_pages :: "string \<Rightarrow> (fault + (string \<times> string) list) list"
  describe_group_pages :: "string \<Rightarrow> (fault + ec2_instance list list) list"
  describe_instance_pages :: "string \<Rightarrow> (fault + ec2_instance list list) list"
  create_tags_fault :: "string \<Rightarrow> fault option"
  list_rr_fault :: "string \<times> string \<times> string \<Rightarrow> fault option"
  other_rr_sets :: "string \<times> string \<times> string \<Rightarrow> rr_set list"
  change_rr_fault :: "api_call \<Rightarrow> fault option"
  complete_fault :: "api_call \<Rightarrow> fault option"

text \<open>
  The directory maps a zone id, a fully qualified name and a record kind to the address
  set stored there; the empty set stands for no record set.
\<close>

record world =
  directory :: "string \<times> string \<times> string \<Rightarrow> string set"
  calls :: "api_call list"
  logs :: "(level \<times> string) list"

type_synonym 'a prog = "world \<Rightarrow> (error + 'a) \<times> world"

type_synonym message = "string \<rightharpoonup> string"

subsection \<open>Sequencing, exceptions and loops\<close>

definition ret :: "'a \<Rightarrow> 'a prog" where
  "ret x = (\<lambda>w. (Inr x, w))"

definition raise_exn :: "error \<Rightarrow> 'a prog" where
  "raise_exn e = (\<lambda>w. (Inl e, w))"

definition bnd :: "'a prog \<Rightarrow> ('a \<Rightarrow> 'b prog) \<Rightarrow> 'b prog" where
  "bnd m f = (\<lambda>w. case m w of (Inl e, w') \<Rightarrow> (Inl e, w') | (Inr x, w') \<Rightarrow> f x w')"

text \<open>\<^verbatim>\<open>try: m except ...: h\<close>; a handler re-raises what its clause does not catch.\<close>

definition try_except :: "'a prog \<Rightarrow> (error \<Rightarrow> 'a prog) \<Rightarrow> 'a prog" where
  "try_except m h = (\<lambda>w. case m w of (Inl e, w') \<Rightarrow> h e w' | (Inr x, w') \<Rightarrow> (Inr x, w'))"

text \<open>
  The root logger is set to level INFO, so a debug record is dropped. The record keeps
  the level and the format string of the call.
\<close>

definition log_record :: "level \<Rightarrow> string \<Rightarrow> unit prog" where
  "log_record lvl msg =
     (\<lambda>w. (Inr (), if lvl = DEBUG then w else w\<lparr>logs := logs w @ [(lvl, msg)]\<rparr>))"

definition issue :: "api_call \<Rightarrow> unit prog" where
  "issue c = (\<lambda>w. (Inr (), w\<lparr>calls := calls w @ [c]\<rparr>))"

definition fail_with :: "fault option \<Rightarrow> unit prog" where
  "fail_with f = (case f of None \<Rightarrow> ret () | Some x \<Rightarrow> raise_exn (exn_of x))"

text \<open>\<^verbatim>\<open>message[key]\<close>\<close>

definition subscript :: "message \<Rightarrow> string \<Rightarrow> string prog" where
  "subscript message k = (case message k of None \<Rightarrow> raise_exn (KeyError k) | Some v \<Rightarrow> ret v)"

text \<open>\<^verbatim>\<open>for x in xs: body\<close>, without and with variables the body updates.\<close>

fun for_each :: "'a list \<Rightarrow> ('a \<Rightarrow> unit prog) \<Rightarrow> unit prog" where
  "for_each [] body = ret ()"
| "for_each (x # xs) body = bnd (body x) (\<lambda>_. for_each xs body)"

fun for_acc :: "'a list \<Rightarrow> ('a \<Rightarrow> 's \<Rightarrow> 's prog) \<Rightarrow> 's \<Rightarrow> 's prog" where
  "for_acc [] body s = ret s"
| "for_acc (x # xs) body s = bnd (body x s) (for_acc xs body)"

text \<open>The loop over the pages of a paginator: a fault ends it with the exception.\<close>

fun for_pages :: "(fault + 'p) list \<Rightarrow> ('p \<Rightarrow> 's \<Rightarrow> 's prog) \<Rightarrow> 's \<Rightarrow> 's prog" where
  "for_pages [] body s = ret s"
| "for_pages (Inl f # ps) body s = raise_exn (exn_of f)"
| "for_pages (Inr p # ps) body s = bnd (body p s) (for_pages ps body)"

subsection \<open>Module constants\<close>

definition HOSTNAME_TAG_NAME :: string where "HOSTNAME_TAG_NAME = ''asg:hostname''"
definition TERMINATING_TAG_NAME :: string where "TERMINATING_TAG_NAME = ''asg:terminating''"
definition TERMINATING_TAG_VALUE :: string where "TERMINATING_TAG_VALUE = ''true''"
definition MODE_TAG_NAME :: string where "MODE_TAG_NAME = ''asg:hostname_mode''"
definition MODE_SINGLE :: string where "MODE_SINGLE = ''single''"
definition MODE_MULTI :: string where "MODE_MULTI = ''multi''"
definition MODE_DEFAULT :: string where "MODE_DEFAULT = MODE_MULTI"
definition MODES_VALID :: "string set" where "MODES_VALID = {MODE_SINGLE, MODE_MULTI}"
definition LIFECYCLE_KEY :: string where "LIFECYCLE_KEY = ''LifecycleHookName''"
definition ASG_KEY :: string where "ASG_KEY = ''AutoScalingGroupName''"

text \<open>\<^verbatim>\<open>instance.get(IPV4_FIELD)\<close> and \<^verbatim>\<open>instance.get(IPV6_FIELD)\<close>\<close>

definition get_IPV4_FIELD :: "env \<Rightarrow> ec2_instance \<Rightarrow> string option" where
  "get_IPV4_FIELD E i = (if USE_PUBLIC_IP E then PublicIpAddress i else PrivateIpAddress i)"

definition get_IPV6_FIELD :: "ec2_instance \<Rightarrow> string option" where
  "get_IPV6_FIELD i = Ipv6Address i"

section \<open>The hostname configuration of a group\<close>

record HostnameConfig =
  asg_name :: string
  hostname :: string
  zone_id :: string
  mode :: string

definition is_single :: "HostnameConfig \<Rightarrow> bool" where
  "is_single config = (mode config = MODE_SINGLE)"

text \<open>\<^verbatim>\<open>s.rstrip(".")\<close> removes every trailing dot.\<close>

definition rstrip_dot :: "string \<Rightarrow> string" where
  "rstrip_dot s = rev (dropWhile (\<lambda>c. c = CHR ''.'') (rev s))"

definition canonical_hostname :: "HostnameConfig \<Rightarrow> string" where
  "canonical_hostname config = rstrip_dot (hostname config) @ ''.''"

text \<open>
  \<^verbatim>\<open>s.split(sep, 1)\<close>: at most one split, at the first separator. The result has one
  element when \<open>s\<close> has no separator (also for the empty string) and two otherwise; it
  is never the empty list.
\<close>

definition split_once :: "char \<Rightarrow> string \<Rightarrow> string list" where
  "split_once sep s =
     (if sep \<in> set s
      then [takeWhile (\<lambda>c. c \<noteq> sep) s, tl (dropWhile (\<lambda>c. c \<noteq> sep) s)]
      else [s])"

text \<open>
  Lines 53 to 64 of \<^verbatim>\<open>from_asg_name\<close>: the tags of the group, collected over all pages
  into a dictionary, a later value of a key replacing an earlier one.
\<close>

definition from_asg_name_tags :: "env \<Rightarrow> string \<Rightarrow> (string \<rightharpoonup> string) prog" where
  "from_asg_name_tags E asg =
     bnd (issue (DescribeTags asg)) (\<lambda>_.
     for_pages (describe_tags_pages E asg)
       (\<lambda>response tags.
          for_acc response
            (\<lambda>tag tags.
               bnd (log_record INFO ''Found tag for ASG %s: %s = %s'') (\<lambda>_.
               ret (tags(fst tag \<mapsto> snd tag))))
            tags)
       Map.empty)"

text \<open>Lines 66 to 94: the hostname and the mode are read from the dictionary.\<close>

definition from_asg_name_parse ::
  "string \<Rightarrow> (string \<rightharpoonup> string) \<Rightarrow> HostnameConfig option prog" where
  "from_asg_name_parse asg tags =
     (let hostname_zone =
            split_once CHR ''@'' (case tags HOSTNAME_TAG_NAME of None \<Rightarrow> '''' | Some v \<Rightarrow> v)
      in
      if hostname_zone = [] then
        bnd (log_record WARNING ''Cannot find %s tag for ASG %s'') (\<lambda>_. ret None)
      else if length hostname_zone \<noteq> 2 then
        bnd (log_record ERROR ''Tag %s for ASG %s value %s does not contain @<ZONE_ID>.'')
          (\<lambda>_. ret None)
      else
        (let m = (case tags MODE_TAG_NAME of None \<Rightarrow> MODE_DEFAULT | Some v \<Rightarrow> v) in
         if m \<notin> MODES_VALID then
           bnd (log_record ERROR ''Tag %s for ASG %s value %s is an unknown mode.'')
             (\<lambda>_. ret None)
         else
           ret (Some \<lparr>asg_name = asg, hostname = hostname_zone ! 0,
                      zone_id = hostname_zone ! 1, mode = m\<rparr>)))"

definition from_asg_name :: "env \<Rightarrow> string \<Rightarrow> HostnameConfig option prog" where
  "from_asg_name E asg =
     bnd (log_record INFO ''Fetching tags for ASG: %s'') (\<lambda>_.
     bnd (from_asg_name_tags E asg) (\<lambda>tags.
     from_asg_name_parse asg tags))"

section \<open>The members of a group and their addresses\<close>

text \<open>
  Lines 132 to 144 of \<^verbatim>\<open>fetch_instance_ips\<close>, which lines 158 to 170 of
  \<^verbatim>\<open>fetch_ip_from_ec2\<close> repeat word for word: the addresses of one instance are added
  to the two sets, a family the instance has no address of adds nothing.
\<close>

definition collect_addresses ::
  "env \<Rightarrow> ec2_instance \<Rightarrow> string set \<times> string set \<Rightarrow> (string set \<times> string set) prog" where
  "collect_addresses E i acc =
     bnd (log_record INFO ''Fetching IP for instance-id: %s'') (\<lambda>_.
     bnd (case get_IPV4_FIELD E i of
            None \<Rightarrow> ret acc
          | Some ipv4 \<Rightarrow>
              bnd (log_record INFO ''Found instance-id %s IPv4 %s'') (\<lambda>_.
              ret (insert ipv4 (fst acc), snd acc))) (\<lambda>acc.
     case get_IPV6_FIELD i of
       None \<Rightarrow> ret acc
     | Some ipv6 \<Rightarrow>
         bnd (log_record INFO ''Found instance-id %s IPv6 %s'') (\<lambda>_.
         ret (fst acc, insert ipv6 (snd acc)))))"

text \<open>The test of lines 121 to 125: the instance carries the tag that marks it as terminating.\<close>

definition tagged_terminating :: "(string \<times> string) list \<Rightarrow> bool" where
  "tagged_terminating tags =
     list_ex (\<lambda>tag. fst tag = TERMINATING_TAG_NAME \<and> snd tag = TERMINATING_TAG_VALUE) tags"

text \<open>The body of the innermost loop of \<^verbatim>\<open>fetch_instance_ips\<close>, lines 117 to 144.\<close>

definition fetch_instance_ips_body ::
  "env \<Rightarrow> string list \<Rightarrow> ec2_instance \<Rightarrow> string set \<times> string set
     \<Rightarrow> (string set \<times> string set) prog" where
  "fetch_instance_ips_body E ignore_ids i acc =
     (if InstanceId i \<in> set ignore_ids then
        bnd (log_record INFO ''Ignoring instance-id %s'') (\<lambda>_. ret acc)
      else
        (case Tags i of
           None \<Rightarrow> raise_exn (KeyError ''Tags'')
         | Some tags \<Rightarrow>
             if tagged_terminating tags then
               bnd (log_record INFO ''Instance-id %s is tagged for termination'') (\<lambda>_. ret acc)
             else collect_addresses E i acc))"

definition fetch_instance_ips ::
  "env \<Rightarrow> string \<Rightarrow> string list \<Rightarrow> (string set \<times> string set) prog" where
  "fetch_instance_ips E asg ignore_ids =
     bnd (issue (DescribeInstancesOfGroup asg)) (\<lambda>_.
     for_pages (describe_group_pages E asg)
       (\<lambda>response acc.
          for_acc response
            (\<lambda>reservation acc. for_acc reservation (fetch_instance_ips_body E ignore_ids) acc)
            acc)
       ({}, {}))"

definition fetch_ip_from_ec2 :: "env \<Rightarrow> string \<Rightarrow> (string set \<times> string set) prog" where
  "fetch_ip_from_ec2 E instance_id =
     bnd (issue (DescribeInstancesById instance_id)) (\<lambda>_.
     for_pages (describe_instance_pages E instance_id)
       (\<lambda>response acc.
          for_acc response
            (\<lambda>reservation acc. for_acc reservation (collect_addresses E) acc)
            acc)
       ({}, {}))"

definition set_terminating_tag :: "env \<Rightarrow> string \<Rightarrow> unit prog" where
  "set_terminating_tag E instance_id =
     bnd (log_record INFO ''Adding %s = %s tag for instance-id %s'') (\<lambda>_.
     bnd (issue (CreateTags instance_id TERMINATING_TAG_NAME TERMINATING_TAG_VALUE)) (\<lambda>_.
     fail_with (create_tags_fault E instance_id)))"

section \<open>The directory: the record sets of the zone\<close>

text \<open>
  Modelled from the spec: the zone backend behind \<^verbatim>\<open>route53.list_resource_record_sets\<close>
  and \<^verbatim>\<open>route53.change_resource_record_sets\<close>, an external service whose code is not part
  of the repository. Sections 4.3 and 6 of the specification give its contract: a read
  from a starting name and kind, limited to one item, answers the record set stored there
  or, when there is none, some unrelated record set; an upsert replaces the record set by
  the address set submitted; a delete removes the record set when the address set
  submitted is exactly the stored one and is rejected as an invalid change batch
  otherwise. The backend stores names fully qualified. Any call may also fail with a fault
  of the environment.
\<close>

definition fqdn :: "string \<Rightarrow> string" where
  "fqdn name = rstrip_dot name @ ''.''"

definition list_resource_record_sets ::
  "env \<Rightarrow> string \<Rightarrow> string \<Rightarrow> string \<Rightarrow> rr_set list prog" where
  "list_resource_record_sets E zone start_name start_type =
     bnd (issue (ListResourceRecordSets zone start_name start_type)) (\<lambda>_.
     bnd (fail_with (list_rr_fault E (zone, start_name, start_type))) (\<lambda>_.
     (\<lambda>w. if directory w (zone, fqdn start_name, start_type) \<noteq> {}
          then (Inr [\<lparr>rr_Name = fqdn start_name, rr_Type = start_type,
                      ResourceRecords = directory w (zone, fqdn start_name, start_type)\<rparr>], w)
          else (Inr (take 1 (filter (\<lambda>r. rr_Name r \<noteq> fqdn start_name \<or> rr_Type r \<noteq> start_type)
                                (other_rr_sets E (zone, start_name, start_type)))), w))))"

definition change_resource_record_sets ::
  "env \<Rightarrow> string \<Rightarrow> string \<Rightarrow> string \<Rightarrow> string \<Rightarrow> int \<Rightarrow> string set \<Rightarrow> unit prog" where
  "change_resource_record_sets E zone action name kind ttl vals =
     bnd (issue (ChangeResourceRecordSets zone action name kind ttl vals)) (\<lambda>_.
     bnd (fail_with (change_rr_fault E (ChangeResourceRecordSets zone action name kind ttl vals)))
       (\<lambda>_.
     (\<lambda>w. if vals = {} then (Inl (ClientError ''InvalidInput''), w)
          else if action = ''UPSERT'' then
            (Inr (), w\<lparr>directory := (directory w)((zone, fqdn name, kind) := vals)\<rparr>)
          else if action = ''DELETE'' then
            (if directory w (zone, fqdn name, kind) = vals
             then (Inr (), w\<lparr>directory := (directory w)((zone, fqdn name, kind) := {})\<rparr>)
             else (Inl (ClientError ''InvalidChangeBatch''), w))
          else (Inl (ClientError ''InvalidInput''), w))))"

text \<open>\<^verbatim>\<open>fetch_values_from_route53\<close>, lines 194 to 245.\<close>

definition fetch_values_from_route53 ::
  "env \<Rightarrow> HostnameConfig \<Rightarrow> string \<Rightarrow> string set prog" where
  "fetch_values_from_route53 E config record_type =
     bnd (log_record INFO ''Fetching IP for hostname: %s'') (\<lambda>_.
     bnd (list_resource_record_sets E (zone_id config) (hostname config) record_type)
       (\<lambda>response.
     bnd (for_acc response
            (\<lambda>r vals.
               if rr_Name r \<noteq> canonical_hostname config then
                 bnd (log_record DEBUG ''Undesired RR set name: %s (wanted %s)'') (\<lambda>_. ret vals)
               else if rr_Type r \<noteq> record_type then
                 bnd (log_record DEBUG ''Undesired RR set type: %s (wanted %s)'') (\<lambda>_. ret vals)
               else ret (vals \<union> ResourceRecords r))
            {}) (\<lambda>vals.
     bnd (if vals \<noteq> {}
          then log_record INFO ''Found %s record values for hostname %s: %s''
          else log_record INFO ''No %s record values for hostname %s'') (\<lambda>_.
     ret vals))))"

text \<open>\<^verbatim>\<open>update_record\<close>, lines 249 to 277: one change batch with one change.\<close>

definition update_record ::
  "env \<Rightarrow> HostnameConfig \<Rightarrow> string set \<Rightarrow> string \<Rightarrow> string \<Rightarrow> unit prog" where
  "update_record E config vals operation record_type =
     bnd (log_record INFO ''Changing record with %s for %s -> %s in %s'') (\<lambda>_.
     change_resource_record_sets E (zone_id config) operation (hostname config) record_type
       (ROUTE53_TTL E) vals)"

section \<open>Processing a scaling event\<close>

text \<open>
  \<^verbatim>\<open>change_records\<close>, lines 319 to 340, a function nested in \<^verbatim>\<open>process_message\<close> that
  closes over the configuration; here the configuration is a parameter.
\<close>

definition change_records ::
  "env \<Rightarrow> HostnameConfig \<Rightarrow> string set \<Rightarrow> string set \<Rightarrow> string \<Rightarrow> unit prog" where
  "change_records E config old new record_type =
     (if old = new then log_record INFO ''No change in %s %s records %s''
      else if new \<noteq> {} then
        bnd (if new - old \<noteq> {} then log_record INFO ''Adding %s %s records %s'' else ret ())
          (\<lambda>_.
        bnd (if old - new \<noteq> {} then log_record INFO ''Removing %s %s records %s'' else ret ())
          (\<lambda>_.
        update_record E config new ''UPSERT'' record_type))
      else
        bnd (log_record INFO ''Removing all %s %s records %s'') (\<lambda>_.
        update_record E config old ''DELETE'' record_type))"

text \<open>
  The body of the loop over \<^verbatim>\<open>launch_ids\<close> in single mode, lines 351 to 360: a family
  the launched instance has no address of is passed over.
\<close>

definition single_launch ::
  "env \<Rightarrow> HostnameConfig \<Rightarrow> string set \<Rightarrow> string set \<Rightarrow> string \<Rightarrow> unit prog" where
  "single_launch E config old_ipv4s old_ipv6s instance_id =
     bnd (fetch_ip_from_ec2 E instance_id) (\<lambda>ips.
     for_each [(old_ipv4s, fst ips, ''A''), (old_ipv6s, snd ips, ''AAAA'')]
       (\<lambda>(old, new, record_type).
          if new \<noteq> {} then change_records E config old new record_type else ret ()))"

text \<open>
  The \<^verbatim>\<open>try\<close> statement of lines 370 to 382: the delete of the addresses of a terminating
  instance, with the handler that catches a client error and re-raises it unless its code
  is \<^verbatim>\<open>InvalidChangeBatch\<close>.
\<close>

definition delete_unless_changed ::
  "env \<Rightarrow> HostnameConfig \<Rightarrow> string set \<Rightarrow> string \<Rightarrow> unit prog" where
  "delete_unless_changed E config old record_type =
     try_except (change_records E config old {} record_type)
       (\<lambda>e. case e of
               ClientError code \<Rightarrow>
                 if code \<noteq> ''InvalidChangeBatch'' then raise_exn e
                 else log_record INFO ''%s %s records have already been changed''
             | _ \<Rightarrow> raise_exn e)"

text \<open>The body of the loop over \<^verbatim>\<open>terminate_ids\<close> in single mode, lines 367 to 382.\<close>

definition single_terminate :: "env \<Rightarrow> HostnameConfig \<Rightarrow> string \<Rightarrow> unit prog" where
  "single_terminate E config instance_id =
     bnd (fetch_ip_from_ec2 E instance_id) (\<lambda>ips.
     for_each [(fst ips, ''A''), (snd ips, ''AAAA'')]
       (\<lambda>(old, record_type).
          if old \<noteq> {} then delete_unless_changed E config old record_type else ret ()))"

text \<open>
  Lines 291 to 302: the transition decides the two sets of instance ids, each of at most one
  element (here a list); an unknown transition is logged and ends the processing.
\<close>

definition classify :: "message \<Rightarrow> string \<Rightarrow> (string list \<times> string list) option prog" where
  "classify message transition =
     (if transition = ''autoscaling:EC2_INSTANCE_LAUNCHING'' then
        bnd (subscript message ''EC2InstanceId'') (\<lambda>i. ret (Some ([i], [])))
      else if transition = ''autoscaling:EC2_INSTANCE_TERMINATING''
              \<or> transition = ''autoscaling:EC2_INSTANCE_LAUNCH_ERROR'' then
        bnd (subscript message ''EC2InstanceId'') (\<lambda>i. ret (Some ([], [i])))
      else
        bnd (log_record ERROR ''Encountered unknown event type: %s'') (\<lambda>_. ret None))"

text \<open>Lines 342 to 391: the reconciliation under a resolved configuration.\<close>

definition reconcile ::
  "env \<Rightarrow> HostnameConfig \<Rightarrow> string \<Rightarrow> string list \<Rightarrow> string list \<Rightarrow> unit prog" where
  "reconcile E config asg launch_ids terminate_ids =
     bnd (fetch_values_from_route53 E config ''A'') (\<lambda>old_ipv4s.
     bnd (fetch_values_from_route53 E config ''AAAA'') (\<lambda>old_ipv6s.
     if is_single config then
       bnd (for_each launch_ids (single_launch E config old_ipv4s old_ipv6s)) (\<lambda>_.
       for_each terminate_ids (single_terminate E config))
     else
       bnd (fetch_instance_ips E asg terminate_ids) (\<lambda>ips.
       bnd (change_records E config old_ipv4s (fst ips) ''A'') (\<lambda>_.
       change_records E config old_ipv6s (snd ips) ''AAAA''))))"

text \<open>\<^verbatim>\<open>process_message\<close>, lines 282 to 391.\<close>

definition process_message :: "env \<Rightarrow> message \<Rightarrow> unit prog" where
  "process_message E message =
     (case message ''LifecycleTransition'' of
        None \<Rightarrow>
          bnd (subscript message ''Event'') (\<lambda>_. log_record INFO ''Skipping %s event'')
      | Some transition \<Rightarrow>
          bnd (log_record INFO ''Processing %s lifecycle transition'') (\<lambda>_.
          bnd (classify message transition) (\<lambda>ids.
          case ids of
            None \<Rightarrow> ret ()
          | Some (launch_ids, terminate_ids) \<Rightarrow>
              bnd (log_record INFO ''Processing message: %s'') (\<lambda>_.
              bnd (for_each terminate_ids (set_terminating_tag E)) (\<lambda>_.
              bnd (subscript message ''AutoScalingGroupName'') (\<lambda>asg.
              bnd (from_asg_name E asg) (\<lambda>config.
              case config of
                None \<Rightarrow> ret ()
              | Some config \<Rightarrow> reconcile E config asg launch_ids terminate_ids)))))))"

section \<open>The handler of a batch\<close>

text \<open>
  A record of the batch is taken as the message it carries, already decoded:
  \<^verbatim>\<open>json.loads(record["Sns"]["Message"])\<close> is the transport's part.
\<close>

definition process_record :: "env \<Rightarrow> message \<Rightarrow> unit prog" where
  "process_record E record_message = process_message E record_message"

text \<open>
  Lines 408 to 425: the lifecycle action is completed when the message has the hook
  name and the group name. The four subscripts are evaluated before the call is made.
\<close>

definition complete_lifecycle_action ::
  "env \<Rightarrow> string \<Rightarrow> string \<Rightarrow> string \<Rightarrow> string \<Rightarrow> string \<Rightarrow> unit prog" where
  "complete_lifecycle_action E hook asg instance_id token result =
     bnd (issue (CompleteLifecycleAction hook asg instance_id token result)) (\<lambda>_.
     fail_with (complete_fault E (CompleteLifecycleAction hook asg instance_id token result)))"

definition finish_lifecycle :: "env \<Rightarrow> message \<Rightarrow> unit prog" where
  "finish_lifecycle E message =
     (if message LIFECYCLE_KEY \<noteq> None \<and> message ASG_KEY \<noteq> None then
        bnd (log_record INFO ''Finishing ASG action'') (\<lambda>_.
        try_except
          (bnd (subscript message ''LifecycleHookName'') (\<lambda>hook.
           bnd (subscript message ''AutoScalingGroupName'') (\<lambda>asg.
           bnd (subscript message ''EC2InstanceId'') (\<lambda>instance_id.
           bnd (subscript message ''LifecycleActionToken'') (\<lambda>token.
           bnd (complete_lifecycle_action E hook asg instance_id token ''CONTINUE'') (\<lambda>_.
           log_record INFO ''ASG action complete: %s''))))))
          (\<lambda>e. case e of
                  ClientError code \<Rightarrow>
                    log_record INFO ''Ignoring complete lifecycle action error: %s''
                | _ \<Rightarrow> raise_exn e))
      else log_record ERROR ''No valid JSON message'')"

text \<open>The body of the loop of \<^verbatim>\<open>lambda_handler\<close>, lines 406 to 425, and the handler.\<close>

definition handle_record :: "env \<Rightarrow> message \<Rightarrow> unit prog" where
  "handle_record E record_message =
     bnd (process_record E record_message) (\<lambda>_. finish_lifecycle E record_message)"

definition lambda_handler :: "env \<Rightarrow> message list \<Rightarrow> unit prog" where
  "lambda_handler E records =
     bnd (log_record INFO ''Processing SNS event: %s'') (\<lambda>_.
     for_each records (handle_record E))"

section \<open>Observations of a run and example inputs\<close>

text \<open>
  The calls that reach the directory, and the two properties of a program used to frame
  the others: it neither changes the directory nor calls it, and its result does not
  depend on the world it starts in.
\<close>

definition is_dns_call :: "api_call \<Rightarrow> bool" where
  "is_dns_call c = (case c of ListResourceRecordSets z n k \<Rightarrow> True
                    | ChangeResourceRecordSets z a n k t v \<Rightarrow> True | _ \<Rightarrow> False)"

definition dns_untouched :: "world \<Rightarrow> world \<Rightarrow> bool" where
  "dns_untouched w w' =
     (directory w' = directory w \<and> filter is_dns_call (calls w') = filter is_dns_call (calls w))"

definition dns_silent :: "'a prog \<Rightarrow> bool" where
  "dns_silent m = (\<forall>w. dns_untouched w (snd (m w)))"

definition oblivious :: "'a prog \<Rightarrow> bool" where
  "oblivious m = (\<forall>w w'. fst (m w) = fst (m w'))"

text \<open>
  Example inputs: an environment in which nothing exists and nothing fails, a world with
  an empty zone, a configuration, and the messages of a launch and of a termination.
\<close>

definition quiet_env :: env where
  "quiet_env = \<lparr>USE_PUBLIC_IP = False, ROUTE53_TTL = 60,
     describe_tags_pages = (\<lambda>_. []),
     describe_group_pages = (\<lambda>_. []),
     describe_instance_pages = (\<lambda>_. []),
     create_tags_fault = (\<lambda>_. None),
     list_rr_fault = (\<lambda>_. None),
     other_rr_sets = (\<lambda>_. []),
     change_rr_fault = (\<lambda>_. None),
     complete_fault = (\<lambda>_. None)\<rparr>"

definition empty_world :: world where
  "empty_world = \<lparr>directory = (\<lambda>_. {}), calls = [], logs = []\<rparr>"

definition www_config :: "string \<Rightarrow> HostnameConfig" where
  "www_config m = \<lparr>asg_name = ''web'', hostname = ''www.example.com'', zone_id = ''Z1'', mode = m\<rparr>"

definition launch_message :: "string \<Rightarrow> string \<Rightarrow> message" where
  "launch_message asg i =
     [''LifecycleTransition'' \<mapsto> ''autoscaling:EC2_INSTANCE_LAUNCHING'',
      ''EC2InstanceId'' \<mapsto> i, ''AutoScalingGroupName'' \<mapsto> asg,
      ''LifecycleHookName'' \<mapsto> ''hook'', ''LifecycleActionToken'' \<mapsto> ''token'']"

definition terminate_message :: "string \<Rightarrow> string \<Rightarrow> message" where
  "terminate_message asg i =
     [''LifecycleTransition'' \<mapsto> ''autoscaling:EC2_INSTANCE_TERMINATING'',
      ''EC2InstanceId'' \<mapsto> i, ''AutoScalingGroupName'' \<mapsto> asg,
      ''LifecycleHookName'' \<mapsto> ''hook'', ''LifecycleActionToken'' \<mapsto> ''token'']"

text \<open>
  The pages a paginator delivered, the instances of a group that
  \<^verbatim>\<open>describe_instances\<close> answered (its filters keep the running ones), and the test
  \<^verbatim>\<open>fetch_instance_ips\<close> applies to each: the instance is not in the caller's collection
  and does not carry the terminating tag.
\<close>

fun pages_of :: "(fault + 'p) list \<Rightarrow> 'p list" where
  "pages_of [] = []"
| "pages_of (Inl f # ps) = pages_of ps"
| "pages_of (Inr p # ps) = p # pages_of ps"

definition group_members :: "env \<Rightarrow> string \<Rightarrow> ec2_instance list" where
  "group_members E asg = concat (concat (pages_of (describe_group_pages E asg)))"

definition counted :: "string list \<Rightarrow> ec2_instance \<Rightarrow> bool" where
  "counted ignore_ids i =
     (InstanceId i \<notin> set ignore_ids \<and>
      (case Tags i of None \<Rightarrow> False | Some tags \<Rightarrow> \<not> tagged_terminating tags))"

text \<open>
  Two running instances of the group \<open>web\<close>, the second tagged as terminating, and an
  environment that answers both.
\<close>

definition instance_one :: ec2_instance where
  "instance_one = \<lparr>InstanceId = ''i-1'', Tags = Some [(''Name'', ''web'')],
     PublicIpAddress = None, PrivateIpAddress = Some ''10.0.0.1'', Ipv6Address = None\<rparr>"

definition instance_two :: ec2_instance where
  "instance_two = \<lparr>InstanceId = ''i-2'', Tags = Some [(''asg:terminating'', ''true'')],
     PublicIpAddress = None, PrivateIpAddress = Some ''10.0.0.2'',
     Ipv6Address = Some ''2001:db8::2''\<rparr>"

definition fleet_env :: "string \<Rightarrow> env" where
  "fleet_env hostname_tag = quiet_env
     \<lparr>describe_tags_pages := (\<lambda>_. [Inr [(''asg:hostname'', hostname_tag)]]),
      describe_group_pages := (\<lambda>_. [Inr [[instance_one], [instance_two]]]),
      describe_instance_pages :=
        (\<lambda>i. if i = ''i-1'' then [Inr [[instance_one]]]
             else if i = ''i-2'' then [Inr [[instance_two]]] else [])\<rparr>"

text \<open>
  The fleet with faults injected into the tagging of an instance, the change of a record
  set and the completion of a lifecycle action; and a message that has the hook name and
  the group name but is no lifecycle transition.
\<close>

definition faulty_env :: "fault option \<Rightarrow> fault option \<Rightarrow> fault option \<Rightarrow> env" where
  "faulty_env tagging changing completing = (fleet_env ''www.example.com@Z1'')
     \<lparr>create_tags_fault := (\<lambda>_. tagging),
      change_rr_fault := (\<lambda>_. changing),
      complete_fault := (\<lambda>_. completing)\<rparr>"

definition hook_test_message :: message where
  "hook_test_message =
     [''Event'' \<mapsto> ''autoscaling:TEST_NOTIFICATION'',
      ''LifecycleHookName'' \<mapsto> ''hook'', ''AutoScalingGroupName'' \<mapsto> ''web'']"

text \<open>
  An observation of the world that a program leaves as it is; the delete calls and the
  changes of one record kind among the calls; and a world whose zone already holds the
  address of the first instance.
\<close>

definition preserves :: "(world \<Rightarrow> 'b) \<Rightarrow> 'a prog \<Rightarrow> bool" where
  "preserves obs m = (\<forall>w. obs (snd (m w)) = obs w)"

definition is_delete_call :: "api_call \<Rightarrow> bool" where
  "is_delete_call c =
     (case c of ChangeResourceRecordSets z a n k t v \<Rightarrow> a = ''DELETE'' | _ \<Rightarrow> False)"

definition is_change_of :: "string \<Rightarrow> api_call \<Rightarrow> bool" where
  "is_change_of kind c =
     (case c of ChangeResourceRecordSets z a n k t v \<Rightarrow> k = kind | _ \<Rightarrow> False)"

definition served_world :: "string \<Rightarrow> string set \<Rightarrow> world" where
  "served_world kind vals =
     \<lparr>directory = (\<lambda>_. {})((''Z1'', ''www.example.com.'', kind) := vals),
      calls = [], logs = []\<rparr>"

text \<open>The fleet with the group tagged for single mode.\<close>

definition single_env :: env where
  "single_env = (fleet_env ''www.example.com@Z1'')
     \<lparr>describe_tags_pages :=
        (\<lambda>_. [Inr [(''asg:hostname'', ''www.example.com@Z1''),
                    (''asg:hostname_mode'', ''single'')]])\<rparr>"

text \<open>
  A group whose instances carry several tags each: the marker stands between other tags
  on the first, the second has the marker's key with another value, the third the
  marker's value under another key, and the fourth, marked as well, shares its IPv4
  address with no other instance.
\<close>

definition marked_instance :: ec2_instance where
  "marked_instance = \<lparr>InstanceId = ''i-7'',
     Tags = Some [(''Name'', ''web''), (''asg:terminating'', ''true''), (''stage'', ''prod'')],
     PublicIpAddress = Some ''198.51.100.7'', PrivateIpAddress = Some ''10.0.0.7'',
     Ipv6Address = Some ''2001:db8::7''\<rparr>"

definition unmarked_instance :: ec2_instance where
  "unmarked_instance = \<lparr>InstanceId = ''i-8'',
     Tags = Some [(''asg:terminating'', ''false''), (''Name'', ''web'')],
     PublicIpAddress = None, PrivateIpAddress = Some ''10.0.0.8'',
     Ipv6Address = Some ''2001:db8::8''\<rparr>"

definition other_key_instance :: ec2_instance where
  "other_key_instance = \<lparr>InstanceId = ''i-9'',
     Tags = Some [(''Name'', ''web''), (''terminating'', ''true'')],
     PublicIpAddress = None, PrivateIpAddress = Some ''10.0.0.9'', Ipv6Address = None\<rparr>"

definition marked_last_instance :: ec2_instance where
  "marked_last_instance = \<lparr>InstanceId = ''i-10'',
     Tags = Some [(''Name'', ''web''), (''stage'', ''prod''), (''asg:terminating'', ''true'')],
     PublicIpAddress = None, PrivateIpAddress = Some ''10.0.0.10'', Ipv6Address = None\<rparr>"

definition tagged_env :: env where
  "tagged_env = quiet_env
     \<lparr>describe_group_pages :=
        (\<lambda>_. [Inr [[marked_instance, unmarked_instance]],
               Inr [[other_key_instance], [marked_last_instance]]])\<rparr>"

section \<open>Reasoning about programs\<close>

lemmas prog_defs = ret_def raise_exn_def bnd_def try_except_def log_record_def issue_def
  fail_with_def subscript_def

lemmas const_defs = HOSTNAME_TAG_NAME_def TERMINATING_TAG_NAME_def TERMINATING_TAG_VALUE_def
  MODE_TAG_NAME_def MODE_SINGLE_def MODE_MULTI_def MODE_DEFAULT_def MODES_VALID_def
  LIFECYCLE_KEY_def ASG_KEY_def

lemmas code_defs = get_IPV4_FIELD_def get_IPV6_FIELD_def is_single_def rstrip_dot_def
  canonical_hostname_def split_once_def from_asg_name_tags_def from_asg_name_parse_def
  from_asg_name_def collect_addresses_def tagged_terminating_def fetch_instance_ips_body_def
  fetch_instance_ips_def fetch_ip_from_ec2_def set_terminating_tag_def fqdn_def
  list_resource_record_sets_def change_resource_record_sets_def fetch_values_from_route53_def
  update_record_def change_records_def single_launch_def delete_unless_changed_def
  single_terminate_def classify_def reconcile_def process_message_def process_record_def
  complete_lifecycle_action_def finish_lifecycle_def handle_record_def lambda_handler_def

lemmas example_defs = quiet_env_def empty_world_def www_config_def launch_message_def
  terminate_message_def

lemma bnd_apply: "bnd m f w = (case m w of (Inl e, w') \<Rightarrow> (Inl e, w') | (Inr x, w') \<Rightarrow> f x w')"
  by (simp add: bnd_def)

lemma bnd_ret [simp]: "bnd (ret x) f = f x"
  by (simp add: bnd_def ret_def)

lemma bnd_raise [simp]: "bnd (raise_exn e) f = raise_exn e"
  by (simp add: bnd_def raise_exn_def)

lemma bnd_Inr: "m w = (Inr x, w') \<Longrightarrow> bnd m f w = f x w'"
  by (simp add: bnd_def)

lemma bnd_Inl: "m w = (Inl e, w') \<Longrightarrow> bnd m f w = (Inl e, w')"
  by (simp add: bnd_def)

lemma dns_untouched_refl [simp]: "dns_untouched w w"
  by (simp add: dns_untouched_def)

lemma dns_untouched_trans: "dns_untouched w w' \<Longrightarrow> dns_untouched w' w'' \<Longrightarrow> dns_untouched w w''"
  by (simp add: dns_untouched_def)

lemma dns_silent_ret [simp]: "dns_silent (ret x)"
  by (simp add: dns_silent_def ret_def)

lemma dns_silent_raise [simp]: "dns_silent (raise_exn e)"
  by (simp add: dns_silent_def raise_exn_def)

lemma dns_silent_log [simp]: "dns_silent (log_record lvl msg)"
  by (simp add: dns_silent_def log_record_def dns_untouched_def)

lemma dns_silent_fail_with [simp]: "dns_silent (fail_with f)"
  by (simp add: fail_with_def split: option.split)

lemma dns_silent_subscript [simp]: "dns_silent (subscript message k)"
  by (simp add: subscript_def split: option.split)

lemma dns_silent_issue: "\<not> is_dns_call c \<Longrightarrow> dns_silent (issue c)"
  by (simp add: dns_silent_def issue_def dns_untouched_def)

lemma dns_silent_bnd: 
  assumes "dns_silent m" and "\<And>x. dns_silent (f x)"
  shows "dns_silent (bnd m f)"
  unfolding dns_silent_def
proof
  fix w
  show "dns_untouched w (snd (bnd m f w))"
  proof (cases "m w")
    case (Pair r w')
    have a: "dns_untouched w w'" using assms(1) Pair by (auto simp: dns_silent_def dest: spec [of _ w])
    show ?thesis
    proof (cases r)
      case (Inl e)
      then show ?thesis using Pair a by (simp add: bnd_def)
    next
      case (Inr x)
      have "dns_untouched w' (snd (f x w'))" using assms(2) by (simp add: dns_silent_def)
      then show ?thesis using Pair Inr a by (auto simp: bnd_def intro: dns_untouched_trans)
    qed
  qed
qed

lemma dns_silent_for_each: "(\<And>x. dns_silent (body x)) \<Longrightarrow> dns_silent (for_each xs body)"
  by (induction xs) (simp_all add: dns_silent_bnd)

lemma dns_silent_for_acc: "(\<And>x s. dns_silent (body x s)) \<Longrightarrow> dns_silent (for_acc xs body s)"
  by (induction xs arbitrary: s) (simp_all add: dns_silent_bnd)

lemma dns_silent_for_pages: "(\<And>p s. dns_silent (body p s)) \<Longrightarrow> dns_silent (for_pages ps body s)"
  by (induction ps body s rule: for_pages.induct) (simp_all add: dns_silent_bnd)

lemma oblivious_ret [simp]: "oblivious (ret x)"
  by (simp add: oblivious_def ret_def)

lemma oblivious_raise [simp]: "oblivious (raise_exn e)"
  by (simp add: oblivious_def raise_exn_def)

lemma oblivious_log [simp]: "oblivious (log_record lvl msg)"
  by (simp add: oblivious_def log_record_def)

lemma oblivious_issue [simp]: "oblivious (issue c)"
  by (simp add: oblivious_def issue_def)

lemma oblivious_fail_with [simp]: "oblivious (fail_with f)"
  by (simp add: fail_with_def split: option.split)

lemma oblivious_subscript [simp]: "oblivious (subscript message k)"
  by (simp add: subscript_def split: option.split)

lemma oblivious_bnd:
  assumes "oblivious m" and "\<And>x. oblivious (f x)"
  shows "oblivious (bnd m f)"
  unfolding oblivious_def
proof (intro allI)
  fix w w'
  obtain r v where a: "m w = (r, v)" by (cases "m w")
  obtain r' v' where b: "m w' = (r', v')" by (cases "m w'")
  have c: "r' = r" using assms(1) a b unfolding oblivious_def by (metis fst_conv)
  show "fst (bnd m f w) = fst (bnd m f w')"
  proof (cases r)
    case (Inl e)
    then show ?thesis using a b c by (simp add: bnd_def)
  next
    case (Inr x)
    have "fst (f x v) = fst (f x v')" using assms(2) unfolding oblivious_def by blast
    then show ?thesis using a b c Inr by (simp add: bnd_def)
  qed
qed

lemma oblivious_for_each: "(\<And>x. oblivious (body x)) \<Longrightarrow> oblivious (for_each xs body)"
  by (induction xs) (simp_all add: oblivious_bnd)

lemma oblivious_for_acc: "(\<And>x s. oblivious (body x s)) \<Longrightarrow> oblivious (for_acc xs body s)"
  by (induction xs arbitrary: s) (simp_all add: oblivious_bnd)

lemma oblivious_for_pages: "(\<And>p s. oblivious (body p s)) \<Longrightarrow> oblivious (for_pages ps body s)"
  by (induction ps body s rule: for_pages.induct) (simp_all add: oblivious_bnd)

lemma obliviousD: "oblivious m \<Longrightarrow> fst (m w) = fst (m w')"
  by (simp add: oblivious_def)

text \<open>The functions that only read the fleet leave the directory alone, and what they
  return does not depend on the world they start in.\<close>

lemma dns_silent_from_asg_name_tags: "dns_silent (from_asg_name_tags E asg)"
  unfolding from_asg_name_tags_def
  by (intro dns_silent_bnd dns_silent_for_pages dns_silent_for_acc dns_silent_issue)
     (simp_all add: is_dns_call_def)

lemma oblivious_from_asg_name_tags: "oblivious (from_asg_name_tags E asg)"
  unfolding from_asg_name_tags_def
  by (intro oblivious_bnd oblivious_for_pages oblivious_for_acc) simp_all

lemma dns_silent_from_asg_name_parse: "dns_silent (from_asg_name_parse asg tags)"
  unfolding from_asg_name_parse_def Let_def
  by (auto intro!: dns_silent_bnd)

lemma oblivious_from_asg_name_parse: "oblivious (from_asg_name_parse asg tags)"
  unfolding from_asg_name_parse_def Let_def
  by (auto intro!: oblivious_bnd)

lemma dns_silent_from_asg_name: "dns_silent (from_asg_name E asg)"
  unfolding from_asg_name_def
  by (intro dns_silent_bnd dns_silent_from_asg_name_tags dns_silent_from_asg_name_parse) simp

lemma oblivious_from_asg_name: "oblivious (from_asg_name E asg)"
  unfolding from_asg_name_def
  by (intro oblivious_bnd oblivious_from_asg_name_tags oblivious_from_asg_name_parse) simp

lemma dns_silent_collect_addresses: "dns_silent (collect_addresses E i acc)"
  unfolding collect_addresses_def
  by (auto intro!: dns_silent_bnd split: option.split)

lemma oblivious_collect_addresses: "oblivious (collect_addresses E i acc)"
  unfolding collect_addresses_def
  by (auto intro!: oblivious_bnd split: option.split)

lemma dns_silent_fetch_ip_from_ec2: "dns_silent (fetch_ip_from_ec2 E i)"
  unfolding fetch_ip_from_ec2_def
  by (intro dns_silent_bnd dns_silent_for_pages dns_silent_for_acc dns_silent_issue
        dns_silent_collect_addresses) (simp add: is_dns_call_def)

lemma oblivious_fetch_ip_from_ec2: "oblivious (fetch_ip_from_ec2 E i)"
  unfolding fetch_ip_from_ec2_def
  by (intro oblivious_bnd oblivious_for_pages oblivious_for_acc oblivious_collect_addresses)
     simp

lemma dns_silent_fetch_instance_ips_body: "dns_silent (fetch_instance_ips_body E ign i acc)"
  unfolding fetch_instance_ips_body_def
  by (auto intro!: dns_silent_bnd dns_silent_collect_addresses split: option.split)

lemma oblivious_fetch_instance_ips_body: "oblivious (fetch_instance_ips_body E ign i acc)"
  unfolding fetch_instance_ips_body_def
  by (auto intro!: oblivious_bnd oblivious_collect_addresses split: option.split)

lemma dns_silent_fetch_instance_ips: "dns_silent (fetch_instance_ips E asg ign)"
  unfolding fetch_instance_ips_def
  by (intro dns_silent_bnd dns_silent_for_pages dns_silent_for_acc dns_silent_issue
        dns_silent_fetch_instance_ips_body) (simp add: is_dns_call_def)

lemma oblivious_fetch_instance_ips: "oblivious (fetch_instance_ips E asg ign)"
  unfolding fetch_instance_ips_def
  by (intro oblivious_bnd oblivious_for_pages oblivious_for_acc
        oblivious_fetch_instance_ips_body) simp

lemma dns_silent_set_terminating_tag: "dns_silent (set_terminating_tag E i)"
  unfolding set_terminating_tag_def
  by (intro dns_silent_bnd dns_silent_issue) (simp_all add: is_dns_call_def)

lemma oblivious_set_terminating_tag: "oblivious (set_terminating_tag E i)"
  unfolding set_terminating_tag_def
  by (intro oblivious_bnd) simp_all

lemma dns_silent_classify: "dns_silent (classify message t)"
  unfolding classify_def by (auto intro!: dns_silent_bnd)

lemma oblivious_classify: "oblivious (classify message t)"
  unfolding classify_def by (auto intro!: oblivious_bnd)

section \<open>The decision of the reconciler\<close>

text \<open>
  Claim C1. For every pair of address sets \<open>old\<close> and \<open>new\<close>, \<^verbatim>\<open>change_records\<close>
  issues no call and leaves the directory as it is when the sets are equal, issues exactly
  one UPSERT carrying the whole of \<open>new\<close> when they differ and \<open>new\<close> is not empty, and
  issues exactly one DELETE carrying \<open>old\<close> when \<open>new\<close> is empty and \<open>old\<close> is not.
\<close>

theorem change_records_plan:
  "calls (snd (change_records E config old new record_type w)) =
     calls w @
     (if old = new then []
      else if new \<noteq> {} then
        [ChangeResourceRecordSets (zone_id config) ''UPSERT'' (hostname config) record_type
           (ROUTE53_TTL E) new]
      else
        [ChangeResourceRecordSets (zone_id config) ''DELETE'' (hostname config) record_type
           (ROUTE53_TTL E) old])
   \<and> (old = new \<longrightarrow> directory (snd (change_records E config old new record_type w)) = directory w)"
  by (auto simp: change_records_def update_record_def change_resource_record_sets_def prog_defs
      split: option.split)

theorem change_records_plan_witness:
  "calls (snd (change_records quiet_env (www_config ''multi'') {''10.0.0.1''}
                 {''10.0.0.1'', ''10.0.0.2''} ''A'' empty_world)) =
     [ChangeResourceRecordSets ''Z1'' ''UPSERT'' ''www.example.com'' ''A'' 60
        {''10.0.0.1'', ''10.0.0.2''}]
   \<and> calls (snd (change_records quiet_env (www_config ''multi'') {''10.0.0.1''} {} ''A''
                   empty_world)) =
     [ChangeResourceRecordSets ''Z1'' ''DELETE'' ''www.example.com'' ''A'' 60 {''10.0.0.1''}]
   \<and> calls (snd (change_records quiet_env (www_config ''multi'') {''10.0.0.1''} {''10.0.0.1''}
                   ''A'' empty_world)) = []
   \<and> directory (snd (change_records quiet_env (www_config ''multi'') {''10.0.0.1''}
                       {''10.0.0.1''} ''A'' empty_world)) = directory empty_world"
  using change_records_plan [of quiet_env "www_config ''multi''" "{''10.0.0.1''}"
          "{''10.0.0.1'', ''10.0.0.2''}" "''A''" empty_world]
        change_records_plan [of quiet_env "www_config ''multi''" "{''10.0.0.1''}" "{}" "''A''"
          empty_world]
        change_records_plan [of quiet_env "www_config ''multi''" "{''10.0.0.1''}"
          "{''10.0.0.1''}" "''A''" empty_world]
  by (simp add: example_defs)

section \<open>The membership of a group\<close>

text \<open>What a loop returns when each round adds to a component of its variables.\<close>

lemma bnd_result_Inr:
  assumes "fst (bnd m f w) = Inr y"
  obtains x w' where "m w = (Inr x, w')" and "fst (f x w') = Inr y"
  using assms by (cases "m w") (auto simp: bnd_def split: sum.splits)

lemma for_acc_collect:
  assumes "\<And>x s w s'. x \<in> set xs \<Longrightarrow> fst (body x s w) = Inr s' \<Longrightarrow> h s' = h s \<union> g x"
    and "fst (for_acc xs body s w) = Inr s'"
  shows "h s' = h s \<union> (\<Union>x\<in>set xs. g x)"
  using assms
proof (induction xs arbitrary: s w)
  case Nil
  then show ?case by (simp add: ret_def)
next
  case (Cons x xs)
  from Cons.prems(2) obtain s1 w1 where a: "body x s w = (Inr s1, w1)"
    and b: "fst (for_acc xs body s1 w1) = Inr s'"
    by (auto elim: bnd_result_Inr)
  have "h s1 = h s \<union> g x" using Cons.prems(1) [of x s w s1] a by simp
  moreover have "h s' = h s1 \<union> (\<Union>x\<in>set xs. g x)"
    using Cons.IH [OF _ b] Cons.prems(1) by simp
  ultimately show ?case by auto
qed

lemma for_pages_collect:
  assumes "\<And>p s w s'. p \<in> set (pages_of ps) \<Longrightarrow> fst (body p s w) = Inr s' \<Longrightarrow> h s' = h s \<union> g p"
    and "fst (for_pages ps body s w) = Inr s'"
  shows "h s' = h s \<union> (\<Union>p\<in>set (pages_of ps). g p)"
  using assms
proof (induction ps body s arbitrary: w rule: for_pages.induct)
  case (1 body s)
  then show ?case by (simp add: ret_def)
next
  case (2 f ps body s)
  then show ?case by (simp add: raise_exn_def)
next
  case (3 p ps body s)
  from "3.prems"(2) obtain s1 w1 where a: "body p s w = (Inr s1, w1)"
    and b: "fst (for_pages ps body s1 w1) = Inr s'"
    by (auto elim: bnd_result_Inr)
  have "h s1 = h s \<union> g p" using "3.prems"(1) [of p s w s1] a by simp
  moreover have "h s' = h s1 \<union> (\<Union>p\<in>set (pages_of ps). g p)"
    using "3.IH" [OF _ b] "3.prems"(1) by simp
  ultimately show ?case by auto
qed

lemma collect_addresses_result:
  "fst (collect_addresses E i acc w) =
     Inr (fst acc \<union> set_option (get_IPV4_FIELD E i), snd acc \<union> set_option (get_IPV6_FIELD i))"
  by (cases acc) (simp add: collect_addresses_def prog_defs split: option.split)

lemma fetch_instance_ips_body_result:
  assumes "fst (fetch_instance_ips_body E ign i acc w) = Inr acc'"
  shows "fst acc' = fst acc \<union> (if counted ign i then set_option (get_IPV4_FIELD E i) else {})"
    and "snd acc' = snd acc \<union> (if counted ign i then set_option (get_IPV6_FIELD i) else {})"
proof -
  show "fst acc' = fst acc \<union> (if counted ign i then set_option (get_IPV4_FIELD E i) else {})"
  proof (cases "InstanceId i \<in> set ign")
    case True
    then show ?thesis using assms
      by (simp add: fetch_instance_ips_body_def counted_def prog_defs)
  next
    case False
    then show ?thesis using assms
      by (cases "Tags i")
         (auto simp: fetch_instance_ips_body_def counted_def collect_addresses_result
            ret_def raise_exn_def bnd_def log_record_def split: if_splits)
  qed
  show "snd acc' = snd acc \<union> (if counted ign i then set_option (get_IPV6_FIELD i) else {})"
  proof (cases "InstanceId i \<in> set ign")
    case True
    then show ?thesis using assms
      by (simp add: fetch_instance_ips_body_def counted_def prog_defs)
  next
    case False
    then show ?thesis using assms
      by (cases "Tags i")
         (auto simp: fetch_instance_ips_body_def counted_def collect_addresses_result
            ret_def raise_exn_def bnd_def log_record_def split: if_splits)
  qed
qed


lemma reservation_result:
  assumes "fst (for_acc r (fetch_instance_ips_body E ign) s v) = Inr s'"
  shows "fst s' = fst s \<union> (\<Union>i\<in>set r. if counted ign i then set_option (get_IPV4_FIELD E i) else {})"
    and "snd s' = snd s \<union> (\<Union>i\<in>set r. if counted ign i then set_option (get_IPV6_FIELD i) else {})"
  by (rule for_acc_collect [OF _ assms], erule fetch_instance_ips_body_result)+

lemma response_result:
  assumes "fst (for_acc p (\<lambda>reservation acc. for_acc reservation (fetch_instance_ips_body E ign) acc) s v) = Inr s'"
  shows "fst s' = fst s \<union> (\<Union>r\<in>set p. \<Union>i\<in>set r. if counted ign i then set_option (get_IPV4_FIELD E i) else {})"
    and "snd s' = snd s \<union> (\<Union>r\<in>set p. \<Union>i\<in>set r. if counted ign i then set_option (get_IPV6_FIELD i) else {})"
  by (rule for_acc_collect [OF _ assms], erule reservation_result)+

lemma pages_result:
  assumes "fst (for_pages ps (\<lambda>response acc. for_acc response
            (\<lambda>reservation acc. for_acc reservation (fetch_instance_ips_body E ign) acc) acc) s v) = Inr s'"
  shows "fst s' = fst s \<union> (\<Union>p\<in>set (pages_of ps). \<Union>r\<in>set p. \<Union>i\<in>set r. if counted ign i then set_option (get_IPV4_FIELD E i) else {})"
    and "snd s' = snd s \<union> (\<Union>p\<in>set (pages_of ps). \<Union>r\<in>set p. \<Union>i\<in>set r. if counted ign i then set_option (get_IPV6_FIELD i) else {})"
  by (rule for_pages_collect [OF _ assms], erule response_result)+


lemma counted_iff:
  "counted ignore_ids i \<longleftrightarrow>
     InstanceId i \<notin> set ignore_ids
     \<and> (\<exists>tags. Tags i = Some tags \<and> (''asg:terminating'', ''true'') \<notin> set tags)"
proof (cases "Tags i")
  case None
  then show ?thesis by (simp add: counted_def)
next
  case (Some tags)
  have "tagged_terminating tags \<longleftrightarrow> (''asg:terminating'', ''true'') \<in> set tags"
    unfolding tagged_terminating_def list_ex_iff TERMINATING_TAG_NAME_def
      TERMINATING_TAG_VALUE_def
    by force
  then show ?thesis using Some by (simp add: counted_def)
qed

text \<open>
  Claim C5. The sets \<^verbatim>\<open>fetch_instance_ips\<close> returns hold exactly the addresses of the
  answered instances whose id is not in the caller's collection and whose tag list does
  not contain the pair \<^verbatim>\<open>asg:terminating = true\<close>. An instance whose tag list contains
  that pair, anywhere and among whatever other tags, therefore contributes no address,
  also when it is answered as running and its id is not in the collection: an address
  that only such instances have is in neither set.
\<close>

theorem fetch_instance_ips_skips_terminating:
  assumes "fst (fetch_instance_ips E asg ignore_ids w) = Inr (ipv4s, ipv6s)"
  shows "ipv4s = {a. \<exists>i\<in>set (group_members E asg). \<exists>tags.
            InstanceId i \<notin> set ignore_ids \<and> Tags i = Some tags
            \<and> (''asg:terminating'', ''true'') \<notin> set tags
            \<and> (if USE_PUBLIC_IP E then PublicIpAddress i else PrivateIpAddress i) = Some a}
       \<and> ipv6s = {a. \<exists>i\<in>set (group_members E asg). \<exists>tags.
            InstanceId i \<notin> set ignore_ids \<and> Tags i = Some tags
            \<and> (''asg:terminating'', ''true'') \<notin> set tags
            \<and> Ipv6Address i = Some a}"
proof -
  obtain u :: unit and w1 where run: "fst (for_pages (describe_group_pages E asg)
       (\<lambda>response acc. for_acc response
            (\<lambda>reservation acc. for_acc reservation (fetch_instance_ips_body E ignore_ids) acc) acc)
       ({}, {}) w1) = Inr (ipv4s, ipv6s)"
    using assms unfolding fetch_instance_ips_def by (rule bnd_result_Inr)
  have a4: "ipv4s = (\<Union>p\<in>set (pages_of (describe_group_pages E asg)). \<Union>r\<in>set p. \<Union>i\<in>set r.
              if counted ignore_ids i then set_option (get_IPV4_FIELD E i) else {})"
    using pages_result(1) [OF run] by simp
  have a6: "ipv6s = (\<Union>p\<in>set (pages_of (describe_group_pages E asg)). \<Union>r\<in>set p. \<Union>i\<in>set r.
              if counted ignore_ids i then set_option (get_IPV6_FIELD i) else {})"
    using pages_result(2) [OF run] by simp
  have b4: "ipv4s = {a. \<exists>i\<in>set (group_members E asg). counted ignore_ids i \<and> get_IPV4_FIELD E i = Some a}"
    unfolding a4 group_members_def by (auto split: if_splits)
  have b6: "ipv6s = {a. \<exists>i\<in>set (group_members E asg). counted ignore_ids i \<and> get_IPV6_FIELD i = Some a}"
    unfolding a6 group_members_def by (auto split: if_splits)
  have c4: "ipv4s = {a. \<exists>i\<in>set (group_members E asg). \<exists>tags.
            InstanceId i \<notin> set ignore_ids \<and> Tags i = Some tags
            \<and> (''asg:terminating'', ''true'') \<notin> set tags
            \<and> (if USE_PUBLIC_IP E then PublicIpAddress i else PrivateIpAddress i) = Some a}"
    unfolding b4 counted_iff get_IPV4_FIELD_def by blast
  have c6: "ipv6s = {a. \<exists>i\<in>set (group_members E asg). \<exists>tags.
            InstanceId i \<notin> set ignore_ids \<and> Tags i = Some tags
            \<and> (''asg:terminating'', ''true'') \<notin> set tags
            \<and> Ipv6Address i = Some a}"
    unfolding b6 counted_iff get_IPV6_FIELD_def by blast
  show ?thesis using c4 c6 by simp
qed

theorem fetch_instance_ips_skips_terminating_witness:
  "fst (fetch_instance_ips tagged_env ''web'' [] empty_world) =
     Inr ({''10.0.0.8'', ''10.0.0.9''}, {''2001:db8::8''})
   \<and> group_members tagged_env ''web'' =
       [marked_instance, unmarked_instance, other_key_instance, marked_last_instance]
   \<and> Tags marked_instance =
       Some [(''Name'', ''web''), (''asg:terminating'', ''true''), (''stage'', ''prod'')]
   \<and> Tags marked_last_instance =
       Some [(''Name'', ''web''), (''stage'', ''prod''), (''asg:terminating'', ''true'')]
   \<and> InstanceId marked_instance \<notin> set []
   \<and> PrivateIpAddress marked_instance = Some ''10.0.0.7''
   \<and> Ipv6Address marked_instance = Some ''2001:db8::7''
   \<and> PrivateIpAddress marked_last_instance = Some ''10.0.0.10''
   \<and> {''10.0.0.8'', ''10.0.0.9''} = {a. \<exists>i\<in>set (group_members tagged_env ''web''). \<exists>tags.
          InstanceId i \<notin> set [] \<and> Tags i = Some tags
          \<and> (''asg:terminating'', ''true'') \<notin> set tags
          \<and> (if USE_PUBLIC_IP tagged_env then PublicIpAddress i else PrivateIpAddress i) = Some a}
   \<and> {''2001:db8::8''} = {a. \<exists>i\<in>set (group_members tagged_env ''web''). \<exists>tags.
          InstanceId i \<notin> set [] \<and> Tags i = Some tags
          \<and> (''asg:terminating'', ''true'') \<notin> set tags
          \<and> Ipv6Address i = Some a}"
proof -
  have run: "fst (fetch_instance_ips tagged_env ''web'' [] empty_world) =
     Inr ({''10.0.0.8'', ''10.0.0.9''}, {''2001:db8::8''})"
    by (simp add: tagged_env_def marked_instance_def unmarked_instance_def
        other_key_instance_def marked_last_instance_def example_defs prog_defs
        const_defs code_defs insert_commute)
  have members: "group_members tagged_env ''web'' =
       [marked_instance, unmarked_instance, other_key_instance, marked_last_instance]"
    by (simp add: group_members_def tagged_env_def quiet_env_def)
  have tags: "Tags marked_instance =
       Some [(''Name'', ''web''), (''asg:terminating'', ''true''), (''stage'', ''prod'')]"
    "Tags marked_last_instance =
       Some [(''Name'', ''web''), (''stage'', ''prod''), (''asg:terminating'', ''true'')]"
    "PrivateIpAddress marked_instance = Some ''10.0.0.7''"
    "Ipv6Address marked_instance = Some ''2001:db8::7''"
    "PrivateIpAddress marked_last_instance = Some ''10.0.0.10''"
    by (simp_all add: marked_instance_def marked_last_instance_def)
  show ?thesis
    using run members tags fetch_instance_ips_skips_terminating [OF run] by simp
qed

section \<open>Resolving the hostname configuration\<close>

text \<open>A program whose result does not depend on the world can be replaced by its result.\<close>

lemma bnd_oblivious_result:
  assumes "oblivious m" and "fst (m w0) = Inr x"
  shows "bnd m f = bnd m (\<lambda>_. f x)"
proof
  fix w
  have "fst (m w) = Inr x" using obliviousD [OF assms(1), of w w0] assms(2) by simp
  then show "bnd m f w = bnd m (\<lambda>_. f x) w"
    by (cases "m w") (simp add: bnd_def)
qed

lemma bnd_oblivious_error:
  assumes "oblivious m" and "fst (m w0) = Inl e"
  shows "bnd m f = bnd m g"
proof
  fix w
  have "fst (m w) = Inl e" using obliviousD [OF assms(1), of w w0] assms(2) by simp
  then show "bnd m f w = bnd m g w"
    by (cases "m w") (simp add: bnd_def)
qed

lemma length_split_once: "length (split_once sep s) = 2 \<longleftrightarrow> sep \<in> set s"
  by (simp add: split_once_def)

lemma split_once_not_empty: "split_once sep s \<noteq> []"
  by (simp add: split_once_def)

lemma from_asg_name_parse_no_separator:
  assumes "CHR ''@'' \<notin> set (case tags HOSTNAME_TAG_NAME of None \<Rightarrow> '''' | Some v \<Rightarrow> v)"
  shows "from_asg_name_parse asg tags w =
     (Inr None,
      w\<lparr>logs := logs w @ [(ERROR, ''Tag %s for ASG %s value %s does not contain @<ZONE_ID>.'')]\<rparr>)"
proof -
  have "split_once CHR ''@'' (case tags HOSTNAME_TAG_NAME of None \<Rightarrow> '''' | Some v \<Rightarrow> v) =
      [case tags HOSTNAME_TAG_NAME of None \<Rightarrow> '''' | Some v \<Rightarrow> v]"
    using assms unfolding split_once_def by simp
  then show ?thesis
    unfolding from_asg_name_parse_def Let_def by (simp add: prog_defs)
qed

lemma from_asg_name_parse_accepts:
  "(\<exists>config. fst (from_asg_name_parse asg tags w) = Inr (Some config)) \<longleftrightarrow>
     (\<exists>v. tags HOSTNAME_TAG_NAME = Some v \<and> CHR ''@'' \<in> set v)
     \<and> (\<forall>m. tags MODE_TAG_NAME = Some m \<longrightarrow> m \<in> MODES_VALID)"
proof (cases "CHR ''@'' \<in> set (case tags HOSTNAME_TAG_NAME of None \<Rightarrow> '''' | Some v \<Rightarrow> v)")
  case False
  then have "\<not> (\<exists>v. tags HOSTNAME_TAG_NAME = Some v \<and> CHR ''@'' \<in> set v)"
    by (auto split: option.splits)
  then show ?thesis using False from_asg_name_parse_no_separator [of tags asg w] by simp
next
  case True
  then have v: "\<exists>v. tags HOSTNAME_TAG_NAME = Some v \<and> CHR ''@'' \<in> set v"
    by (cases "tags HOSTNAME_TAG_NAME") auto
  have two: "length (split_once CHR ''@'' (case tags HOSTNAME_TAG_NAME of None \<Rightarrow> '''' | Some v \<Rightarrow> v)) = 2"
    using True by (simp add: length_split_once)
  have ne: "split_once CHR ''@'' (case tags HOSTNAME_TAG_NAME of None \<Rightarrow> '''' | Some v \<Rightarrow> v) \<noteq> []"
    by (rule split_once_not_empty)
  show ?thesis
  proof (cases "tags MODE_TAG_NAME")
    case None
    then show ?thesis using v two ne
      by (simp add: from_asg_name_parse_def Let_def prog_defs MODES_VALID_def MODE_DEFAULT_def)
  next
    case (Some m)
    then show ?thesis using v two ne
      by (simp add: from_asg_name_parse_def Let_def prog_defs)
  qed
qed

lemma from_asg_name_result:
  assumes "fst (from_asg_name_tags E asg w0) = Inr tags"
  shows "fst (from_asg_name E asg w) = fst (from_asg_name_parse asg tags w0)"
proof -
  obtain w1 where a: "log_record INFO ''Fetching tags for ASG: %s'' w = (Inr (), w1)"
    by (simp add: log_record_def)
  have "fst (from_asg_name_tags E asg w1) = Inr tags"
    using assms obliviousD [OF oblivious_from_asg_name_tags, of E asg w1 w0] by simp
  then obtain w2 where b: "from_asg_name_tags E asg w1 = (Inr tags, w2)"
    by (cases "from_asg_name_tags E asg w1") simp
  have "from_asg_name E asg w = from_asg_name_parse asg tags w2"
    unfolding from_asg_name_def using a b by (simp add: bnd_def)
  then show ?thesis
    using obliviousD [OF oblivious_from_asg_name_parse, of asg tags w2 w0] by simp
qed

lemma process_message_unresolved:
  assumes "message ''AutoScalingGroupName'' = Some asg" and "fst (from_asg_name E asg w0) = Inr None"
  shows "dns_silent (process_message E message)"
proof -
  have a: "bnd (from_asg_name E asg)
             (\<lambda>config. case config of None \<Rightarrow> ret ()
                        | Some config \<Rightarrow> reconcile E config asg l t) =
           bnd (from_asg_name E asg) (\<lambda>_. ret ())" for l t
    using bnd_oblivious_result [OF oblivious_from_asg_name assms(2),
        where f = "\<lambda>config. case config of None \<Rightarrow> ret ()
                        | Some config \<Rightarrow> reconcile E config asg l t"]
    by simp
  show ?thesis
    unfolding process_message_def
    by (auto simp: assms(1) subscript_def a split: option.split
        intro!: dns_silent_bnd dns_silent_for_each dns_silent_set_terminating_tag
          dns_silent_classify dns_silent_from_asg_name)
qed

lemma split_once_at_first:
  assumes "sep \<in> set v"
  shows "split_once sep v = [takeWhile (\<lambda>c. c \<noteq> sep) v, tl (dropWhile (\<lambda>c. c \<noteq> sep) v)]"
    and "takeWhile (\<lambda>c. c \<noteq> sep) v @ sep # tl (dropWhile (\<lambda>c. c \<noteq> sep) v) = v"
    and "sep \<notin> set (takeWhile (\<lambda>c. c \<noteq> sep) v)"
proof -
  show "split_once sep v = [takeWhile (\<lambda>c. c \<noteq> sep) v, tl (dropWhile (\<lambda>c. c \<noteq> sep) v)]"
    using assms by (simp add: split_once_def)
  have ne: "dropWhile (\<lambda>c. c \<noteq> sep) v \<noteq> []"
    using assms by (simp add: dropWhile_eq_Nil_conv)
  have "hd (dropWhile (\<lambda>c. c \<noteq> sep) v) = sep"
    using hd_dropWhile [OF ne] by simp
  then have "dropWhile (\<lambda>c. c \<noteq> sep) v = sep # tl (dropWhile (\<lambda>c. c \<noteq> sep) v)"
    using ne by (cases "dropWhile (\<lambda>c. c \<noteq> sep) v") simp_all
  then have "takeWhile (\<lambda>c. c \<noteq> sep) v @ sep # tl (dropWhile (\<lambda>c. c \<noteq> sep) v) =
      takeWhile (\<lambda>c. c \<noteq> sep) v @ dropWhile (\<lambda>c. c \<noteq> sep) v"
    by simp
  then show "takeWhile (\<lambda>c. c \<noteq> sep) v @ sep # tl (dropWhile (\<lambda>c. c \<noteq> sep) v) = v"
    by simp
  show "sep \<notin> set (takeWhile (\<lambda>c. c \<noteq> sep) v)"
    using set_takeWhileD [of sep "\<lambda>c. c \<noteq> sep" v] by blast
qed

lemma from_asg_name_parse_config:
  assumes "tags HOSTNAME_TAG_NAME = Some v" and "CHR ''@'' \<in> set v"
    and "\<forall>m. tags MODE_TAG_NAME = Some m \<longrightarrow> m \<in> MODES_VALID"
  shows "from_asg_name_parse asg tags w =
     (Inr (Some \<lparr>asg_name = asg,
                 hostname = takeWhile (\<lambda>c. c \<noteq> CHR ''@'') v,
                 zone_id = tl (dropWhile (\<lambda>c. c \<noteq> CHR ''@'') v),
                 mode = (case tags MODE_TAG_NAME of None \<Rightarrow> ''multi'' | Some m \<Rightarrow> m)\<rparr>), w)"
proof -
  have s: "split_once CHR ''@'' v =
      [takeWhile (\<lambda>c. c \<noteq> CHR ''@'') v, tl (dropWhile (\<lambda>c. c \<noteq> CHR ''@'') v)]"
    using assms(2) by (rule split_once_at_first(1))
  show ?thesis
  proof (cases "tags MODE_TAG_NAME")
    case None
    then show ?thesis using assms(1) s
      by (simp add: from_asg_name_parse_def Let_def ret_def MODES_VALID_def MODE_DEFAULT_def
          MODE_MULTI_def)
  next
    case (Some m)
    then show ?thesis using assms(1) assms(3) s
      by (simp add: from_asg_name_parse_def Let_def ret_def)
  qed
qed

text \<open>
  Claim C6, amended. The hostname tag is split at its first separator only, so the
  resolution yields a configuration exactly when the tag value contains at least one
  \<open>@\<close> and the mode tag is absent or one of the two modes. The configuration is then
  determined: the hostname is the part of the value before its first separator and has
  no separator in it, the zone id is everything after that separator, further separators
  included, and the two joined by one separator give the value back; nothing is logged.
  For a tag value with no separator the resolution returns no configuration, logs one
  record at error level, and the processing of the event neither reads nor changes the
  directory.
\<close>

theorem hostname_tag_needs_one_separator:
  "((\<exists>config. fst (from_asg_name_parse asg tags w) = Inr (Some config)) \<longleftrightarrow>
      (\<exists>v. tags HOSTNAME_TAG_NAME = Some v \<and> CHR ''@'' \<in> set v)
      \<and> (\<forall>m. tags MODE_TAG_NAME = Some m \<longrightarrow> m \<in> MODES_VALID))
   \<and> (\<forall>v. tags HOSTNAME_TAG_NAME = Some v \<and> CHR ''@'' \<in> set v
           \<and> (\<forall>m. tags MODE_TAG_NAME = Some m \<longrightarrow> m \<in> MODES_VALID) \<longrightarrow>
         (\<exists>config. from_asg_name_parse asg tags w = (Inr (Some config), w)
            \<and> asg_name config = asg
            \<and> hostname config = takeWhile (\<lambda>c. c \<noteq> CHR ''@'') v
            \<and> zone_id config = tl (dropWhile (\<lambda>c. c \<noteq> CHR ''@'') v)
            \<and> hostname config @ CHR ''@'' # zone_id config = v
            \<and> CHR ''@'' \<notin> set (hostname config)
            \<and> mode config = (case tags MODE_TAG_NAME of None \<Rightarrow> ''multi'' | Some m \<Rightarrow> m)))
   \<and> (\<forall>v. tags HOSTNAME_TAG_NAME = Some v \<and> CHR ''@'' \<notin> set v \<longrightarrow>
         from_asg_name_parse asg tags w =
           (Inr None,
            w\<lparr>logs := logs w @
               [(ERROR, ''Tag %s for ASG %s value %s does not contain @<ZONE_ID>.'')]\<rparr>)
         \<and> (fst (from_asg_name_tags E asg w) = Inr tags
              \<and> message ''AutoScalingGroupName'' = Some asg \<longrightarrow>
            dns_untouched w (snd (process_message E message w))))"
proof (intro conjI allI impI)
  show "(\<exists>config. fst (from_asg_name_parse asg tags w) = Inr (Some config)) \<longleftrightarrow>
      (\<exists>v. tags HOSTNAME_TAG_NAME = Some v \<and> CHR ''@'' \<in> set v)
      \<and> (\<forall>m. tags MODE_TAG_NAME = Some m \<longrightarrow> m \<in> MODES_VALID)"
    by (rule from_asg_name_parse_accepts)
next
  fix v
  assume a: "tags HOSTNAME_TAG_NAME = Some v \<and> CHR ''@'' \<in> set v
           \<and> (\<forall>m. tags MODE_TAG_NAME = Some m \<longrightarrow> m \<in> MODES_VALID)"
  have r: "from_asg_name_parse asg tags w =
     (Inr (Some \<lparr>asg_name = asg,
                 hostname = takeWhile (\<lambda>c. c \<noteq> CHR ''@'') v,
                 zone_id = tl (dropWhile (\<lambda>c. c \<noteq> CHR ''@'') v),
                 mode = (case tags MODE_TAG_NAME of None \<Rightarrow> ''multi'' | Some m \<Rightarrow> m)\<rparr>), w)"
    using a from_asg_name_parse_config [of tags v asg w] by simp
  have j: "takeWhile (\<lambda>c. c \<noteq> CHR ''@'') v @ CHR ''@'' # tl (dropWhile (\<lambda>c. c \<noteq> CHR ''@'') v) = v"
    using a split_once_at_first(2) [of "CHR ''@''" v] by simp
  have n: "CHR ''@'' \<notin> set (takeWhile (\<lambda>c. c \<noteq> CHR ''@'') v)"
    using a split_once_at_first(3) [of "CHR ''@''" v] by simp
  show "\<exists>config. from_asg_name_parse asg tags w = (Inr (Some config), w)
            \<and> asg_name config = asg
            \<and> hostname config = takeWhile (\<lambda>c. c \<noteq> CHR ''@'') v
            \<and> zone_id config = tl (dropWhile (\<lambda>c. c \<noteq> CHR ''@'') v)
            \<and> hostname config @ CHR ''@'' # zone_id config = v
            \<and> CHR ''@'' \<notin> set (hostname config)
            \<and> mode config = (case tags MODE_TAG_NAME of None \<Rightarrow> ''multi'' | Some m \<Rightarrow> m)"
    unfolding r using j n by simp
next
  fix v
  assume a: "tags HOSTNAME_TAG_NAME = Some v \<and> CHR ''@'' \<notin> set v"
  then have b: "CHR ''@'' \<notin> set (case tags HOSTNAME_TAG_NAME of None \<Rightarrow> [] | Some v \<Rightarrow> v)"
    by simp
  show c: "from_asg_name_parse asg tags w =
           (Inr None,
            w\<lparr>logs := logs w @
               [(ERROR, ''Tag %s for ASG %s value %s does not contain @<ZONE_ID>.'')]\<rparr>)"
    using b from_asg_name_parse_no_separator [of tags asg w] by simp
  assume d: "fst (from_asg_name_tags E asg w) = Inr tags
              \<and> message ''AutoScalingGroupName'' = Some asg"
  have "fst (from_asg_name E asg w) = Inr None"
    using from_asg_name_result [of E asg w tags w] d c by simp
  then have "dns_silent (process_message E message)"
    using process_message_unresolved [of message asg E w] d by simp
  then show "dns_untouched w (snd (process_message E message w))"
    by (simp add: dns_silent_def)
qed

theorem hostname_tag_needs_one_separator_witness:
  "(\<exists>config. fst (from_asg_name_parse ''web'' [''asg:hostname'' \<mapsto> ''www.example.com@Z1'']
        empty_world) = Inr (Some config))
   \<and> (\<exists>config. from_asg_name_parse ''web''
          [''asg:hostname'' \<mapsto> ''db.example.com@Z2@y@z'', ''asg:hostname_mode'' \<mapsto> ''single'']
          empty_world = (Inr (Some config), empty_world)
        \<and> asg_name config = ''web''
        \<and> hostname config = ''db.example.com''
        \<and> zone_id config = ''Z2@y@z''
        \<and> hostname config @ CHR ''@'' # zone_id config = ''db.example.com@Z2@y@z''
        \<and> CHR ''@'' \<notin> set (hostname config)
        \<and> mode config = ''single'')
   \<and> from_asg_name_parse ''web'' [''asg:hostname'' \<mapsto> ''www.example.com''] empty_world =
       (Inr None,
        empty_world\<lparr>logs := logs empty_world @
           [(ERROR, ''Tag %s for ASG %s value %s does not contain @<ZONE_ID>.'')]\<rparr>)
   \<and> dns_untouched empty_world
       (snd (process_message (fleet_env ''www.example.com'') (launch_message ''web'' ''i-1'')
          empty_world))"
proof -
  have tags: "fst (from_asg_name_tags (fleet_env ''www.example.com'') ''web'' empty_world) =
      Inr [''asg:hostname'' \<mapsto> ''www.example.com'']"
    by (simp add: fleet_env_def example_defs prog_defs from_asg_name_tags_def)
  have asg: "launch_message ''web'' ''i-1'' ''AutoScalingGroupName'' = Some ''web''"
    by (simp add: launch_message_def)
  have one: "\<exists>config. fst (from_asg_name_parse ''web'' [''asg:hostname'' \<mapsto> ''www.example.com@Z1'']
        empty_world) = Inr (Some config)"
    using hostname_tag_needs_one_separator [of "''web''"
        "[''asg:hostname'' \<mapsto> ''www.example.com@Z1'']" empty_world
        "fleet_env ''www.example.com''" "launch_message ''web'' ''i-1''"]
    by (simp add: const_defs)
  have more: "\<exists>config. from_asg_name_parse ''web''
          [''asg:hostname'' \<mapsto> ''db.example.com@Z2@y@z'', ''asg:hostname_mode'' \<mapsto> ''single'']
          empty_world = (Inr (Some config), empty_world)
        \<and> asg_name config = ''web''
        \<and> hostname config = ''db.example.com''
        \<and> zone_id config = ''Z2@y@z''
        \<and> hostname config @ CHR ''@'' # zone_id config = ''db.example.com@Z2@y@z''
        \<and> CHR ''@'' \<notin> set (hostname config)
        \<and> mode config = ''single''"
    using hostname_tag_needs_one_separator [of "''web''"
        "[''asg:hostname'' \<mapsto> ''db.example.com@Z2@y@z'', ''asg:hostname_mode'' \<mapsto> ''single'']"
        empty_world "fleet_env ''www.example.com''" "launch_message ''web'' ''i-1''"]
    by (simp add: const_defs)
  have none: "from_asg_name_parse ''web'' [''asg:hostname'' \<mapsto> ''www.example.com''] empty_world =
       (Inr None,
        empty_world\<lparr>logs := logs empty_world @
           [(ERROR, ''Tag %s for ASG %s value %s does not contain @<ZONE_ID>.'')]\<rparr>)
   \<and> dns_untouched empty_world
       (snd (process_message (fleet_env ''www.example.com'') (launch_message ''web'' ''i-1'')
          empty_world))"
    using tags asg
      hostname_tag_needs_one_separator [of "''web''"
        "[''asg:hostname'' \<mapsto> ''www.example.com'']" empty_world
        "fleet_env ''www.example.com''" "launch_message ''web'' ''i-1''"]
    by (simp add: const_defs)
  show ?thesis using one more none by simp
qed

theorem hostname_tag_two_separators_counterexample:
  "fst (from_asg_name (fleet_env ''www.example.com@Z1@x'') ''web'' empty_world) =
     Inr (Some \<lparr>asg_name = ''web'', hostname = ''www.example.com'', zone_id = ''Z1@x'',
                mode = ''multi''\<rparr>)
   \<and> length (filter (\<lambda>c. c = CHR ''@'') ''www.example.com@Z1@x'') = 2
   \<and> filter is_dns_call
       (calls (snd (process_message (fleet_env ''www.example.com@Z1@x'')
                      (launch_message ''web'' ''i-1'') empty_world))) =
     [ListResourceRecordSets ''Z1@x'' ''www.example.com'' ''A'',
      ListResourceRecordSets ''Z1@x'' ''www.example.com'' ''AAAA'',
      ChangeResourceRecordSets ''Z1@x'' ''UPSERT'' ''www.example.com'' ''A'' 60 {''10.0.0.1''}]"
  by (simp add: fleet_env_def instance_one_def instance_two_def example_defs prog_defs
      const_defs code_defs is_dns_call_def)

text \<open>
  Claim C7. A group with no hostname tag is meant to be passed over quietly: the code has
  a branch for it that logs a warning. That branch tests whether the list returned by
  \<^verbatim>\<open>split\<close> is empty, which it never is, so the missing tag falls through to the branch
  of a malformed tag and is logged at error level. At a launch event of a group without
  tags the log holds the error record and no warning; the directory is not called.
\<close>

theorem missing_hostname_tag_logged_as_error:
  "logs (snd (process_message quiet_env (launch_message ''web'' ''i-1'') empty_world)) =
     [(INFO, ''Processing %s lifecycle transition''),
      (INFO, ''Processing message: %s''),
      (INFO, ''Fetching tags for ASG: %s''),
      (ERROR, ''Tag %s for ASG %s value %s does not contain @<ZONE_ID>.'')]
   \<and> calls (snd (process_message quiet_env (launch_message ''web'' ''i-1'') empty_world)) =
     [DescribeTags ''web'']
   \<and> fst (process_message quiet_env (launch_message ''web'' ''i-1'') empty_world) = Inr ()"
  by (simp add: example_defs prog_defs const_defs code_defs)

lemma from_asg_name_parse_missing_tag:
  "tags HOSTNAME_TAG_NAME = None \<Longrightarrow>
   from_asg_name_parse asg tags w =
     (Inr None,
      w\<lparr>logs := logs w @ [(ERROR, ''Tag %s for ASG %s value %s does not contain @<ZONE_ID>.'')]\<rparr>)"
  using from_asg_name_parse_no_separator [of tags asg w] by simp

section \<open>The batch: failures and the completion signal\<close>

lemmas fleet_defs = faulty_env_def fleet_env_def instance_one_def instance_two_def
  hook_test_message_def

lemma for_each_append:
  "for_each (xs @ ys) body = bnd (for_each xs body) (\<lambda>_. for_each ys body)"
proof (induction xs)
  case Nil
  show ?case by simp
next
  case (Cons x xs)
  show ?case
  proof
    fix w
    show "for_each ((x # xs) @ ys) body w = bnd (for_each (x # xs) body) (\<lambda>_. for_each ys body) w"
      using Cons.IH by (simp add: bnd_def split: prod.splits sum.splits)
  qed
qed

lemma lambda_handler_append:
  "lambda_handler E (xs @ ys) = bnd (lambda_handler E xs) (\<lambda>_. for_each ys (handle_record E))"
proof
  fix w
  show "lambda_handler E (xs @ ys) w = bnd (lambda_handler E xs) (\<lambda>_. for_each ys (handle_record E)) w"
    unfolding lambda_handler_def for_each_append
    by (simp add: bnd_def split: prod.splits sum.splits)
qed

lemma finish_lifecycle_complete:
  assumes "message ''LifecycleHookName'' = Some hook"
    and "message ''AutoScalingGroupName'' = Some asg"
    and "message ''EC2InstanceId'' = Some i"
    and "message ''LifecycleActionToken'' = Some token"
  shows "calls (snd (finish_lifecycle E message w)) =
           calls w @ [CompleteLifecycleAction hook asg i token ''CONTINUE'']"
    and "complete_fault E (CompleteLifecycleAction hook asg i token ''CONTINUE'') = None \<Longrightarrow>
         fst (finish_lifecycle E message w) = Inr ()"
    and "complete_fault E (CompleteLifecycleAction hook asg i token ''CONTINUE'') =
           Some (ClientFault code) \<Longrightarrow>
         fst (finish_lifecycle E message w) = Inr ()
         \<and> last (logs (snd (finish_lifecycle E message w))) =
             (INFO, ''Ignoring complete lifecycle action error: %s'')"
    and "complete_fault E (CompleteLifecycleAction hook asg i token ''CONTINUE'') =
           Some (TransportFault name) \<Longrightarrow>
         fst (finish_lifecycle E message w) = Inl (BotoCoreError name)"
proof -
  show "calls (snd (finish_lifecycle E message w)) =
           calls w @ [CompleteLifecycleAction hook asg i token ''CONTINUE'']"
  proof (cases "complete_fault E (CompleteLifecycleAction hook asg i token ''CONTINUE'')")
    case None
    then show ?thesis using assms
      by (simp add: finish_lifecycle_def complete_lifecycle_action_def prog_defs
          LIFECYCLE_KEY_def ASG_KEY_def)
  next
    case (Some f)
    then show ?thesis using assms
      by (cases f)
         (simp_all add: finish_lifecycle_def complete_lifecycle_action_def prog_defs
            LIFECYCLE_KEY_def ASG_KEY_def)
  qed
qed (use assms in \<open>simp_all add: finish_lifecycle_def complete_lifecycle_action_def prog_defs
      LIFECYCLE_KEY_def ASG_KEY_def\<close>)

lemma finish_lifecycle_key_error:
  assumes "message LIFECYCLE_KEY \<noteq> None" and "message ASG_KEY \<noteq> None"
  shows "(\<exists>k. fst (finish_lifecycle E message w) = Inl (KeyError k)) \<longleftrightarrow>
           (message ''EC2InstanceId'' = None \<or> message ''LifecycleActionToken'' = None)"
proof -
  obtain hook asg where h: "message ''LifecycleHookName'' = Some hook"
    and g: "message ''AutoScalingGroupName'' = Some asg"
    using assms by (auto simp: LIFECYCLE_KEY_def ASG_KEY_def)
  show ?thesis
  proof (cases "message ''EC2InstanceId''")
    case None
    then show ?thesis using h g
      by (simp add: finish_lifecycle_def prog_defs LIFECYCLE_KEY_def ASG_KEY_def)
  next
    case (Some i)
    show ?thesis
    proof (cases "message ''LifecycleActionToken''")
      case None
      then show ?thesis using h g Some
        by (simp add: finish_lifecycle_def prog_defs LIFECYCLE_KEY_def ASG_KEY_def)
    next
      case (Some token)
      have "\<not> (\<exists>k. fst (finish_lifecycle E message w) = Inl (KeyError k))"
      proof (cases "complete_fault E (CompleteLifecycleAction hook asg i token ''CONTINUE'')")
        case None
        then show ?thesis
          using finish_lifecycle_complete(2) [OF h g \<open>message ''EC2InstanceId'' = Some i\<close> Some]
          by simp
      next
        case (Some f)
        then show ?thesis
          using finish_lifecycle_complete(3,4) [OF h g \<open>message ''EC2InstanceId'' = Some i\<close>
              \<open>message ''LifecycleActionToken'' = Some token\<close>, of E]
          by (cases f) auto
      qed
      then show ?thesis using Some \<open>message ''EC2InstanceId'' = Some i\<close> by simp
    qed
  qed
qed

lemma handle_record_after:
  "process_message E message w = (Inr (), w1) \<Longrightarrow>
   handle_record E message w = finish_lifecycle E message w1"
  by (simp add: handle_record_def process_record_def bnd_def)



text \<open>
  Claim C9, amended. The handler runs the events of a batch in a plain loop with no
  exception handler around an event. When the events before one have been processed and
  that one fails with a propagated error, the handler ends with that error in the world
  that event left: the events before it are done, the events after it are never started.
\<close>

theorem failure_aborts_rest_of_batch:
  assumes "fst (lambda_handler E before w) = Inr ()"
    and "fst (handle_record E message (snd (lambda_handler E before w))) = Inl e"
  shows "lambda_handler E (before @ message # rest) w =
           (Inl e, snd (handle_record E message (snd (lambda_handler E before w))))"
proof -
  obtain w1 where a: "lambda_handler E before w = (Inr (), w1)"
    using assms(1) by (cases "lambda_handler E before w") simp
  obtain w2 where b: "handle_record E message w1 = (Inl e, w2)"
    using assms(2) a by (cases "handle_record E message w1") simp
  show ?thesis
    unfolding lambda_handler_append using a b by (simp add: bnd_def)
qed

theorem failure_aborts_rest_of_batch_witness:
  "fst (lambda_handler (faulty_env (Some (ClientFault ''UnauthorizedOperation'')) None None)
          [launch_message ''web'' ''i-1''] empty_world) = Inr ()
   \<and> lambda_handler (faulty_env (Some (ClientFault ''UnauthorizedOperation'')) None None)
       ([launch_message ''web'' ''i-1''] @ terminate_message ''web'' ''i-2''
          # [launch_message ''web'' ''i-1'']) empty_world =
     (Inl (ClientError ''UnauthorizedOperation''),
      snd (handle_record (faulty_env (Some (ClientFault ''UnauthorizedOperation'')) None None)
             (terminate_message ''web'' ''i-2'')
             (snd (lambda_handler
                     (faulty_env (Some (ClientFault ''UnauthorizedOperation'')) None None)
                     [launch_message ''web'' ''i-1''] empty_world))))"
proof -
  have first: "fst (lambda_handler
      (faulty_env (Some (ClientFault ''UnauthorizedOperation'')) None None)
      [launch_message ''web'' ''i-1''] empty_world) = Inr ()"
    by (simp add: fleet_defs example_defs prog_defs const_defs code_defs)
  have second: "fst (handle_record
      (faulty_env (Some (ClientFault ''UnauthorizedOperation'')) None None)
      (terminate_message ''web'' ''i-2'')
      (snd (lambda_handler (faulty_env (Some (ClientFault ''UnauthorizedOperation'')) None None)
              [launch_message ''web'' ''i-1''] empty_world))) =
      Inl (ClientError ''UnauthorizedOperation'')"
    by (simp add: fleet_defs example_defs prog_defs const_defs code_defs)
  show ?thesis
    using first failure_aborts_rest_of_batch [OF first second, of "[launch_message ''web'' ''i-1'']"]
    by simp
qed

theorem later_events_not_processed_counterexample:
  "fst (lambda_handler (faulty_env (Some (ClientFault ''UnauthorizedOperation'')) None None)
          [terminate_message ''web'' ''i-2'', launch_message ''web'' ''i-1''] empty_world) =
     Inl (ClientError ''UnauthorizedOperation'')
   \<and> calls (snd (lambda_handler
                   (faulty_env (Some (ClientFault ''UnauthorizedOperation'')) None None)
                   [terminate_message ''web'' ''i-2'', launch_message ''web'' ''i-1'']
                   empty_world)) =
     [CreateTags ''i-2'' ''asg:terminating'' ''true'']
   \<and> calls (snd (lambda_handler
                   (faulty_env (Some (ClientFault ''UnauthorizedOperation'')) None None)
                   [launch_message ''web'' ''i-1''] empty_world)) =
     [DescribeTags ''web'',
      ListResourceRecordSets ''Z1'' ''www.example.com'' ''A'',
      ListResourceRecordSets ''Z1'' ''www.example.com'' ''AAAA'',
      DescribeInstancesOfGroup ''web'',
      ChangeResourceRecordSets ''Z1'' ''UPSERT'' ''www.example.com'' ''A'' 60 {''10.0.0.1''},
      CompleteLifecycleAction ''hook'' ''web'' ''i-1'' ''token'' ''CONTINUE'']"
  by (simp add: fleet_defs example_defs prog_defs const_defs code_defs)




text \<open>
  Claim C10. The completion is guarded by the presence of the hook name and the group name
  only, and the handler around the call catches client errors only. After a processing
  that returned, the round ends with an uncaught key error exactly when the instance id or
  the action token is missing: the four subscripts are total only when all four fields are
  present.
\<close>

theorem completion_needs_four_fields:
  assumes "message LIFECYCLE_KEY \<noteq> None" and "message ASG_KEY \<noteq> None"
    and "fst (process_message E message w) = Inr ()"
  shows "(\<exists>k. fst (handle_record E message w) = Inl (KeyError k)) \<longleftrightarrow>
           (message ''EC2InstanceId'' = None \<or> message ''LifecycleActionToken'' = None)"
proof -
  obtain w1 where a: "process_message E message w = (Inr (), w1)"
    using assms(3) by (cases "process_message E message w") simp
  show ?thesis
    using handle_record_after [OF a] finish_lifecycle_key_error [OF assms(1,2), where E = E and w = w1]
    by simp
qed

theorem completion_needs_four_fields_witness:
  "hook_test_message LIFECYCLE_KEY \<noteq> None \<and> hook_test_message ASG_KEY \<noteq> None
   \<and> fst (process_message quiet_env hook_test_message empty_world) = Inr ()
   \<and> hook_test_message ''EC2InstanceId'' = None
   \<and> (\<exists>k. fst (handle_record quiet_env hook_test_message empty_world) = Inl (KeyError k))
   \<and> fst (lambda_handler quiet_env [hook_test_message] empty_world) =
       Inl (KeyError ''EC2InstanceId'')"
proof -
  have keys: "hook_test_message LIFECYCLE_KEY \<noteq> None" "hook_test_message ASG_KEY \<noteq> None"
    by (simp_all add: hook_test_message_def const_defs)
  have run: "fst (process_message quiet_env hook_test_message empty_world) = Inr ()"
    by (simp add: fleet_defs example_defs prog_defs const_defs code_defs)
  have missing: "hook_test_message ''EC2InstanceId'' = None"
    by (simp add: hook_test_message_def)
  have handler: "fst (lambda_handler quiet_env [hook_test_message] empty_world) =
       Inl (KeyError ''EC2InstanceId'')"
    by (simp add: fleet_defs example_defs prog_defs const_defs code_defs)
  show ?thesis
    using keys run missing handler
      completion_needs_four_fields [OF keys run]
    by simp
qed

section \<open>Observations a program leaves alone\<close>

lemma preservesD: "preserves obs m \<Longrightarrow> obs (snd (m w)) = obs w"
  by (simp add: preserves_def)

lemma preserves_ret [simp]: "preserves obs (ret x)"
  by (simp add: preserves_def ret_def)

lemma preserves_raise [simp]: "preserves obs (raise_exn e)"
  by (simp add: preserves_def raise_exn_def)

lemma preserves_fail_with [simp]: "preserves obs (fail_with f)"
  by (simp add: fail_with_def split: option.split)

lemma preserves_subscript [simp]: "preserves obs (subscript message k)"
  by (simp add: subscript_def split: option.split)

lemma preserves_log: "(\<And>w l. obs (w\<lparr>logs := l\<rparr>) = obs w) \<Longrightarrow> preserves obs (log_record lvl msg)"
  by (simp add: preserves_def log_record_def)

lemma preserves_issue:
  "(\<And>w. obs (w\<lparr>calls := calls w @ [c]\<rparr>) = obs w) \<Longrightarrow> preserves obs (issue c)"
  by (simp add: preserves_def issue_def)

lemma preserves_bnd:
  assumes "preserves obs m" and "\<And>x. preserves obs (f x)"
  shows "preserves obs (bnd m f)"
  unfolding preserves_def
proof
  fix w
  obtain r w' where a: "m w = (r, w')" by (cases "m w")
  have b: "obs w' = obs w" using preservesD [OF assms(1), of w] a by simp
  show "obs (snd (bnd m f w)) = obs w"
  proof (cases r)
    case (Inl e)
    then show ?thesis using a b by (simp add: bnd_def)
  next
    case (Inr x)
    then show ?thesis using a b preservesD [OF assms(2), of x w'] by (simp add: bnd_def)
  qed
qed

lemma preserves_try_except:
  assumes "preserves obs m" and "\<And>e. preserves obs (h e)"
  shows "preserves obs (try_except m h)"
  unfolding preserves_def
proof
  fix w
  obtain r w' where a: "m w = (r, w')" by (cases "m w")
  have b: "obs w' = obs w" using preservesD [OF assms(1), of w] a by simp
  show "obs (snd (try_except m h w)) = obs w"
  proof (cases r)
    case (Inl e)
    then show ?thesis using a b preservesD [OF assms(2), of e w'] by (simp add: try_except_def)
  next
    case (Inr x)
    then show ?thesis using a b by (simp add: try_except_def)
  qed
qed

lemma preserves_for_each: "(\<And>x. preserves obs (body x)) \<Longrightarrow> preserves obs (for_each xs body)"
  by (induction xs) (simp_all add: preserves_bnd)

lemma preserves_for_acc: "(\<And>x s. preserves obs (body x s)) \<Longrightarrow> preserves obs (for_acc xs body s)"
  by (induction xs arbitrary: s) (simp_all add: preserves_bnd)

lemma preserves_for_pages:
  "(\<And>p s. preserves obs (body p s)) \<Longrightarrow> preserves obs (for_pages ps body s)"
  by (induction ps body s rule: for_pages.induct) (simp_all add: preserves_bnd)

text \<open>Observations that look at the calls through a filter, or at the directory only.\<close>

lemma preserves_collect_addresses:
  "(\<And>w l. obs (w\<lparr>logs := l\<rparr>) = obs w) \<Longrightarrow> preserves obs (collect_addresses E i acc)"
  unfolding collect_addresses_def
  by (auto intro!: preserves_bnd preserves_log split: option.split)

lemma preserves_fetch_ip_from_ec2:
  assumes "\<And>w l. obs (w\<lparr>logs := l\<rparr>) = obs w"
    and "\<And>w. obs (w\<lparr>calls := calls w @ [DescribeInstancesById i]\<rparr>) = obs w"
  shows "preserves obs (fetch_ip_from_ec2 E i)"
  unfolding fetch_ip_from_ec2_def
  by (intro preserves_bnd preserves_for_pages preserves_for_acc preserves_collect_addresses
        preserves_issue assms)

lemma preserves_list_resource_record_sets:
  assumes "\<And>w. obs (w\<lparr>calls := calls w @ [ListResourceRecordSets z n k]\<rparr>) = obs w"
  shows "preserves obs (list_resource_record_sets E z n k)"
proof -
  have a: "preserves obs (\<lambda>w. if directory w (z, fqdn n, k) \<noteq> {}
          then (Inr [\<lparr>rr_Name = fqdn n, rr_Type = k,
                      ResourceRecords = directory w (z, fqdn n, k)\<rparr>], w)
          else (Inr (take 1 (filter (\<lambda>r. rr_Name r \<noteq> fqdn n \<or> rr_Type r \<noteq> k)
                                (other_rr_sets E (z, n, k)))), w))"
    by (simp add: preserves_def)
  show ?thesis
    unfolding list_resource_record_sets_def
    by (intro preserves_bnd preserves_issue assms a) simp
qed

lemma preserves_fetch_values_from_route53:
  assumes "\<And>w l. obs (w\<lparr>logs := l\<rparr>) = obs w"
    and "\<And>w. obs (w\<lparr>calls := calls w @
            [ListResourceRecordSets (zone_id config) (hostname config) k]\<rparr>) = obs w"
  shows "preserves obs (fetch_values_from_route53 E config k)"
  unfolding fetch_values_from_route53_def
  by (auto intro!: preserves_bnd preserves_for_acc preserves_log
        preserves_list_resource_record_sets assms)


text \<open>What the directory answers and how a change moves it.\<close>

lemma canonical_hostname_fqdn: "canonical_hostname config = fqdn (hostname config)"
  by (simp add: canonical_hostname_def fqdn_def)

lemma fetch_values_from_route53_result:
  "fst (fetch_values_from_route53 E config k w) =
     (case list_rr_fault E (zone_id config, hostname config, k) of
        None \<Rightarrow> Inr (directory w (zone_id config, fqdn (hostname config), k))
      | Some f \<Rightarrow> Inl (exn_of f))"
proof (cases "list_rr_fault E (zone_id config, hostname config, k)")
  case (Some f)
  then show ?thesis
    by (simp add: fetch_values_from_route53_def list_resource_record_sets_def prog_defs)
next
  case None
  show ?thesis
  proof (cases "directory w (zone_id config, fqdn (hostname config), k) = {}")
    case False
    then show ?thesis using None
      by (simp add: fetch_values_from_route53_def list_resource_record_sets_def prog_defs
          canonical_hostname_fqdn)
  next
    case True
    show ?thesis
    proof (cases "filter (\<lambda>r. rr_Name r \<noteq> fqdn (hostname config) \<or> rr_Type r \<noteq> k)
                    (other_rr_sets E (zone_id config, hostname config, k))")
      case Nil
      then show ?thesis using None True
        by (simp add: fetch_values_from_route53_def list_resource_record_sets_def prog_defs
            canonical_hostname_fqdn)
    next
      case (Cons r rs)
      then have "r \<in> set (filter (\<lambda>r. rr_Name r \<noteq> fqdn (hostname config) \<or> rr_Type r \<noteq> k)
                    (other_rr_sets E (zone_id config, hostname config, k)))"
        by simp
      then have "rr_Name r \<noteq> fqdn (hostname config) \<or> rr_Type r \<noteq> k"
        by simp
      then show ?thesis using None True Cons
        by (auto simp: fetch_values_from_route53_def list_resource_record_sets_def prog_defs
            canonical_hostname_fqdn)
    qed
  qed
qed

lemma fetch_values_from_route53_directory:
  "directory (snd (fetch_values_from_route53 E config k w)) = directory w"
  by (rule preservesD [OF preserves_fetch_values_from_route53]) simp_all

lemma change_records_calls:
  "calls (snd (change_records E config old new record_type w)) =
     calls w @
     (if old = new then []
      else if new \<noteq> {} then
        [ChangeResourceRecordSets (zone_id config) ''UPSERT'' (hostname config) record_type
           (ROUTE53_TTL E) new]
      else
        [ChangeResourceRecordSets (zone_id config) ''DELETE'' (hostname config) record_type
           (ROUTE53_TTL E) old])"
  by (auto simp: change_records_def update_record_def change_resource_record_sets_def prog_defs
      split: option.split)

lemma change_records_elsewhere:
  "key \<noteq> (zone_id config, fqdn (hostname config), record_type) \<Longrightarrow>
   directory (snd (change_records E config old new record_type w)) key = directory w key"
  by (auto simp: change_records_def update_record_def change_resource_record_sets_def prog_defs
      split: option.split)

lemma change_records_applied:
  assumes "fst (change_records E config old new record_type w) = Inr ()"
    and "directory w (zone_id config, fqdn (hostname config), record_type) = old"
  shows "directory (snd (change_records E config old new record_type w))
           (zone_id config, fqdn (hostname config), record_type) = new"
  using assms
  by (auto simp: change_records_def update_record_def change_resource_record_sets_def prog_defs
      split: option.splits if_splits)

lemma change_records_succeeds:
  assumes "\<And>c. change_rr_fault E c = None"
    and "directory w (zone_id config, fqdn (hostname config), record_type) = old"
  shows "fst (change_records E config old new record_type w) = Inr ()"
  using assms
  by (auto simp: change_records_def update_record_def change_resource_record_sets_def prog_defs)

text \<open>From the event to the reconciliation.\<close>

lemma run_frame:
  assumes "oblivious m" and "dns_silent m" and "fst (m w0) = Inr x" and "dns_untouched w v"
  obtains v' where "m v = (Inr x, v')" and "dns_untouched w v'"
proof -
  have "fst (m v) = Inr x" using obliviousD [OF assms(1), of v w0] assms(3) by simp
  then obtain v' where a: "m v = (Inr x, v')" by (cases "m v") simp
  have "dns_untouched v v'" using assms(2) a by (auto simp: dns_silent_def dest: spec [of _ v])
  then have "dns_untouched w v'" using assms(4) dns_untouched_trans by blast
  then show ?thesis using a that by blast
qed

lemma process_message_reaches_reconcile:
  assumes "message ''LifecycleTransition'' = Some t"
    and "fst (classify message t w) = Inr (Some (launch_ids, terminate_ids))"
    and "fst (for_each terminate_ids (set_terminating_tag E) w) = Inr ()"
    and "message ''AutoScalingGroupName'' = Some asg"
    and "fst (from_asg_name E asg w) = Inr (Some config)"
  obtains w' where "dns_untouched w w'"
    and "process_message E message w = reconcile E config asg launch_ids terminate_ids w'"
proof -
  obtain w1 where a1: "log_record INFO ''Processing %s lifecycle transition'' w = (Inr (), w1)"
    and f1: "dns_untouched w w1"
    by (simp add: log_record_def dns_untouched_def)
  obtain w2 where a2: "classify message t w1 = (Inr (Some (launch_ids, terminate_ids)), w2)"
    and f2: "dns_untouched w w2"
    using run_frame [OF oblivious_classify dns_silent_classify assms(2) f1] by blast
  obtain w3 where a3: "log_record INFO ''Processing message: %s'' w2 = (Inr (), w3)"
    and f3: "dns_untouched w w3"
    using f2 by (simp add: log_record_def dns_untouched_def)
  have ob: "oblivious (for_each terminate_ids (set_terminating_tag E))"
    by (intro oblivious_for_each oblivious_set_terminating_tag)
  have si: "dns_silent (for_each terminate_ids (set_terminating_tag E))"
    by (intro dns_silent_for_each dns_silent_set_terminating_tag)
  obtain w4 where a4: "for_each terminate_ids (set_terminating_tag E) w3 = (Inr (), w4)"
    and f4: "dns_untouched w w4"
    using run_frame [OF ob si assms(3) f3] by blast
  obtain w5 where a5: "from_asg_name E asg w4 = (Inr (Some config), w5)"
    and f5: "dns_untouched w w5"
    using run_frame [OF oblivious_from_asg_name dns_silent_from_asg_name assms(5) f4] by blast
  have "process_message E message w = reconcile E config asg launch_ids terminate_ids w5"
    unfolding process_message_def using assms(1,4) a1 a2 a3 a4 a5
    by (simp add: bnd_def subscript_def ret_def)
  then show ?thesis using f5 that by blast
qed


section \<open>Multi mode: the directory follows the membership\<close>

lemma fetch_values_from_route53_Inr:
  assumes "fetch_values_from_route53 E config k w = (Inr vals, w1)"
  shows "vals = directory w (zone_id config, fqdn (hostname config), k)"
    and "directory w1 = directory w"
proof -
  show "vals = directory w (zone_id config, fqdn (hostname config), k)"
    using assms fetch_values_from_route53_result [of E config k w]
    by (cases "list_rr_fault E (zone_id config, hostname config, k)") auto
  show "directory w1 = directory w"
    using assms fetch_values_from_route53_directory [of E config k w] by simp
qed

lemma fetch_values_from_route53_run:
  assumes "list_rr_fault E (zone_id config, hostname config, k) = None"
  obtains w1 where "fetch_values_from_route53 E config k w =
      (Inr (directory w (zone_id config, fqdn (hostname config), k)), w1)"
    and "directory w1 = directory w"
proof -
  have "fst (fetch_values_from_route53 E config k w) =
      Inr (directory w (zone_id config, fqdn (hostname config), k))"
    using assms fetch_values_from_route53_result [of E config k w] by simp
  then obtain w1 where a: "fetch_values_from_route53 E config k w =
      (Inr (directory w (zone_id config, fqdn (hostname config), k)), w1)"
    by (cases "fetch_values_from_route53 E config k w") simp
  then show ?thesis
    using that fetch_values_from_route53_Inr(2) [OF a] by blast
qed

lemma fetch_instance_ips_run:
  assumes "fst (fetch_instance_ips E asg ts w0) = Inr ips"
  obtains w' where "fetch_instance_ips E asg ts w = (Inr ips, w')"
    and "directory w' = directory w"
proof -
  have "dns_untouched w w" by simp
  then obtain w' where a: "fetch_instance_ips E asg ts w = (Inr ips, w')"
    and b: "dns_untouched w w'"
    using run_frame [OF oblivious_fetch_instance_ips dns_silent_fetch_instance_ips assms]
    by blast
  then show ?thesis using that by (simp add: dns_untouched_def)
qed

lemma reconcile_multi_exact:
  assumes multi: "\<not> is_single config"
    and members: "fst (fetch_instance_ips E asg ts w0) = Inr (ipv4s, ipv6s)"
    and finished: "fst (reconcile E config asg l ts w) = Inr ()"
  shows "directory (snd (reconcile E config asg l ts w))
           (zone_id config, fqdn (hostname config), ''A'') = ipv4s
       \<and> directory (snd (reconcile E config asg l ts w))
           (zone_id config, fqdn (hostname config), ''AAAA'') = ipv6s"
proof -
  let ?A = "(zone_id config, fqdn (hostname config), ''A'')"
  let ?AAAA = "(zone_id config, fqdn (hostname config), ''AAAA'')"
  have r: "reconcile E config asg l ts =
     bnd (fetch_values_from_route53 E config ''A'') (\<lambda>old_ipv4s.
     bnd (fetch_values_from_route53 E config ''AAAA'') (\<lambda>old_ipv6s.
       bnd (fetch_instance_ips E asg ts) (\<lambda>ips.
       bnd (change_records E config old_ipv4s (fst ips) ''A'') (\<lambda>_.
       change_records E config old_ipv6s (snd ips) ''AAAA''))))"
    using multi by (simp add: reconcile_def)
  from finished obtain o4 w1 where a1: "fetch_values_from_route53 E config ''A'' w = (Inr o4, w1)"
    and d1: "fst (bnd (fetch_values_from_route53 E config ''AAAA'') (\<lambda>old_ipv6s.
       bnd (fetch_instance_ips E asg ts) (\<lambda>ips.
       bnd (change_records E config o4 (fst ips) ''A'') (\<lambda>_.
       change_records E config old_ipv6s (snd ips) ''AAAA''))) w1) = Inr ()"
    unfolding r by (rule bnd_result_Inr)
  from d1 obtain o6 w2 where a2: "fetch_values_from_route53 E config ''AAAA'' w1 = (Inr o6, w2)"
    and d2: "fst (bnd (fetch_instance_ips E asg ts) (\<lambda>ips.
       bnd (change_records E config o4 (fst ips) ''A'') (\<lambda>_.
       change_records E config o6 (snd ips) ''AAAA'')) w2) = Inr ()"
    by (rule bnd_result_Inr)
  obtain w3 where a3: "fetch_instance_ips E asg ts w2 = (Inr (ipv4s, ipv6s), w3)"
    and e3: "directory w3 = directory w2"
    using fetch_instance_ips_run [OF members] by blast
  have d3: "fst (bnd (change_records E config o4 ipv4s ''A'') (\<lambda>_.
       change_records E config o6 ipv6s ''AAAA'') w3) = Inr ()"
    using d2 bnd_Inr [of "fetch_instance_ips E asg ts" w2 "(ipv4s, ipv6s)" w3
        "\<lambda>ips. bnd (change_records E config o4 (fst ips) ''A'') (\<lambda>_.
           change_records E config o6 (snd ips) ''AAAA'')"] a3
    by simp
  from d3 obtain u w4 where a4: "change_records E config o4 ipv4s ''A'' w3 = (Inr u, w4)"
    and d4: "fst (change_records E config o6 ipv6s ''AAAA'' w4) = Inr ()"
    by (rule bnd_result_Inr)
  have o4: "o4 = directory w ?A" and e1: "directory w1 = directory w"
    using fetch_values_from_route53_Inr [OF a1] by simp_all
  have o6: "o6 = directory w1 ?AAAA" and e2: "directory w2 = directory w1"
    using fetch_values_from_route53_Inr [OF a2] by simp_all
  have k4: "directory w4 ?A = ipv4s"
    using change_records_applied [of E config o4 ipv4s "''A''" w3] a4 o4 e1 e2 e3 by simp
  have k6: "directory w4 ?AAAA = o6"
    using change_records_elsewhere [of ?AAAA config "''A''" E o4 ipv4s w3] a4 o6 e2 e3 by simp
  have final: "reconcile E config asg l ts w = change_records E config o6 ipv6s ''AAAA'' w4"
    unfolding r using a1 a2 a3 a4 by (simp add: bnd_def)
  have "directory (snd (change_records E config o6 ipv6s ''AAAA'' w4)) ?AAAA = ipv6s"
    using change_records_applied [OF d4] k6 by simp
  moreover have "directory (snd (change_records E config o6 ipv6s ''AAAA'' w4)) ?A = ipv4s"
    using change_records_elsewhere [of ?A config "''AAAA''" E o6 ipv6s w4] k4 by simp
  ultimately show ?thesis using final by simp
qed

lemma reconcile_multi_completes:
  assumes multi: "\<not> is_single config"
    and members: "fst (fetch_instance_ips E asg ts w0) = Inr (ipv4s, ipv6s)"
    and reads: "\<And>k. list_rr_fault E k = None"
    and writes: "\<And>c. change_rr_fault E c = None"
  shows "fst (reconcile E config asg l ts w) = Inr ()"
proof -
  let ?A = "(zone_id config, fqdn (hostname config), ''A'')"
  let ?AAAA = "(zone_id config, fqdn (hostname config), ''AAAA'')"
  obtain w1 where a1: "fetch_values_from_route53 E config ''A'' w = (Inr (directory w ?A), w1)"
    and e1: "directory w1 = directory w"
    using fetch_values_from_route53_run [OF reads] by blast
  obtain w2 where a2: "fetch_values_from_route53 E config ''AAAA'' w1 =
      (Inr (directory w1 ?AAAA), w2)"
    and e2: "directory w2 = directory w1"
    using fetch_values_from_route53_run [OF reads] by blast
  obtain w3 where a3: "fetch_instance_ips E asg ts w2 = (Inr (ipv4s, ipv6s), w3)"
    and e3: "directory w3 = directory w2"
    using fetch_instance_ips_run [OF members] by blast
  have "fst (change_records E config (directory w ?A) ipv4s ''A'' w3) = Inr ()"
    using change_records_succeeds [OF writes, of w3 config "''A''"] e1 e2 e3 by simp
  then obtain w4 where a4: "change_records E config (directory w ?A) ipv4s ''A'' w3 = (Inr (), w4)"
    by (cases "change_records E config (directory w ?A) ipv4s ''A'' w3") simp
  have "directory w4 ?AAAA = directory w3 ?AAAA"
    using change_records_elsewhere [of ?AAAA config "''A''" E "directory w ?A" ipv4s w3] a4
    by simp
  then have "fst (change_records E config (directory w1 ?AAAA) ipv6s ''AAAA'' w4) = Inr ()"
    using change_records_succeeds [OF writes, of w4 config "''AAAA''"] e2 e3 by simp
  then show ?thesis
    using multi a1 a2 a3 a4 by (simp add: reconcile_def bnd_def)
qed

text \<open>
  Claim C2. In multi mode, for every content of the directory and every membership the
  group query computes, an event whose processing returns leaves the record set of each
  family equal to the membership of that family, the empty set standing for a deleted
  record set; and the processing does return when no read or change of the directory
  fails. The sets are the ones submitted: by the decision of \<^verbatim>\<open>change_records\<close> the
  upsert carries the whole membership and nothing of the old set.
\<close>

theorem multi_mode_directory_is_membership:
  assumes "message ''LifecycleTransition'' = Some t"
    and "fst (classify message t w) = Inr (Some (launch_ids, terminate_ids))"
    and "fst (for_each terminate_ids (set_terminating_tag E) w) = Inr ()"
    and "message ''AutoScalingGroupName'' = Some asg"
    and "fst (from_asg_name E asg w) = Inr (Some config)"
    and "\<not> is_single config"
    and "fst (fetch_instance_ips E asg terminate_ids w) = Inr (ipv4s, ipv6s)"
  shows "(fst (process_message E message w) = Inr () \<longrightarrow>
            directory (snd (process_message E message w))
              (zone_id config, fqdn (hostname config), ''A'') = ipv4s
          \<and> directory (snd (process_message E message w))
              (zone_id config, fqdn (hostname config), ''AAAA'') = ipv6s)
       \<and> ((\<forall>k. list_rr_fault E k = None) \<and> (\<forall>c. change_rr_fault E c = None) \<longrightarrow>
            fst (process_message E message w) = Inr ())"
proof -
  obtain w' where
    run: "process_message E message w = reconcile E config asg launch_ids terminate_ids w'"
    using process_message_reaches_reconcile [OF assms(1-5)] by blast
  show ?thesis
    unfolding run
    using reconcile_multi_exact [OF assms(6,7), of launch_ids w']
      reconcile_multi_completes [OF assms(6,7), of launch_ids w']
    by blast
qed


theorem multi_mode_directory_is_membership_witness:
  "fst (process_message (fleet_env ''www.example.com@Z1'') (terminate_message ''web'' ''i-1'')
          (served_world ''A'' {''10.0.0.1''})) = Inr ()
   \<and> directory (snd (process_message (fleet_env ''www.example.com@Z1'')
                       (terminate_message ''web'' ''i-1'') (served_world ''A'' {''10.0.0.1''})))
       (''Z1'', ''www.example.com.'', ''A'') = {}
   \<and> directory (snd (process_message (fleet_env ''www.example.com@Z1'')
                       (launch_message ''web'' ''i-1'')
                       (served_world ''A'' {''10.0.0.1'', ''10.0.0.9''})))
       (''Z1'', ''www.example.com.'', ''A'') = {''10.0.0.1''}"
proof -
  let ?E = "fleet_env ''www.example.com@Z1''"
  let ?W = "served_world ''A'' {''10.0.0.1''}"
  let ?V = "served_world ''A'' {''10.0.0.1'', ''10.0.0.9''}"
  have reads: "\<forall>k. list_rr_fault ?E k = None" and writes: "\<forall>c. change_rr_fault ?E c = None"
    by (simp_all add: fleet_env_def quiet_env_def)
  have multi: "\<not> is_single (www_config ''multi'')"
    by (simp add: www_config_def is_single_def MODE_SINGLE_def)
  have t1: "terminate_message ''web'' ''i-1'' ''LifecycleTransition'' =
      Some ''autoscaling:EC2_INSTANCE_TERMINATING''"
    and t2: "fst (classify (terminate_message ''web'' ''i-1'')
        ''autoscaling:EC2_INSTANCE_TERMINATING'' ?W) = Inr (Some ([], [''i-1'']))"
    and t3: "fst (for_each [''i-1''] (set_terminating_tag ?E) ?W) = Inr ()"
    and t4: "terminate_message ''web'' ''i-1'' ''AutoScalingGroupName'' = Some ''web''"
    and t5: "fst (from_asg_name ?E ''web'' ?W) = Inr (Some (www_config ''multi''))"
    and t7: "fst (fetch_instance_ips ?E ''web'' [''i-1''] ?W) = Inr ({}, {})"
    by (simp_all add: fleet_defs example_defs served_world_def prog_defs const_defs code_defs)
  have l1: "launch_message ''web'' ''i-1'' ''LifecycleTransition'' =
      Some ''autoscaling:EC2_INSTANCE_LAUNCHING''"
    and l2: "fst (classify (launch_message ''web'' ''i-1'')
        ''autoscaling:EC2_INSTANCE_LAUNCHING'' ?V) = Inr (Some ([''i-1''], []))"
    and l3: "fst (for_each [] (set_terminating_tag ?E) ?V) = Inr ()"
    and l4: "launch_message ''web'' ''i-1'' ''AutoScalingGroupName'' = Some ''web''"
    and l5: "fst (from_asg_name ?E ''web'' ?V) = Inr (Some (www_config ''multi''))"
    and l7: "fst (fetch_instance_ips ?E ''web'' [] ?V) = Inr ({''10.0.0.1''}, {})"
    by (simp_all add: fleet_defs example_defs served_world_def prog_defs const_defs code_defs)
  show ?thesis
    using reads writes
      multi_mode_directory_is_membership [OF t1 t2 t3 t4 t5 multi t7]
      multi_mode_directory_is_membership [OF l1 l2 l3 l4 l5 multi l7]
    by (simp add: www_config_def fqdn_def rstrip_dot_def)
qed

section \<open>Single mode: the delete of a terminating instance\<close>

lemma change_records_failed:
  "fst (change_records E config old new record_type w) = Inl e \<Longrightarrow>
   directory (snd (change_records E config old new record_type w)) = directory w"
  by (auto simp: change_records_def update_record_def change_resource_record_sets_def prog_defs
      split: option.splits if_splits)

lemma delete_unless_changed_swallows:
  assumes "change_records E config old {} record_type w = (Inl (ClientError ''InvalidChangeBatch''), w1)"
  shows "delete_unless_changed E config old record_type w =
           (Inr (), w1\<lparr>logs := logs w1 @ [(INFO, ''%s %s records have already been changed'')]\<rparr>)"
  using assms by (simp add: delete_unless_changed_def try_except_def log_record_def)

lemma delete_unless_changed_propagates:
  assumes "fst (change_records E config old {} record_type w) = Inl e"
    and "e \<noteq> ClientError ''InvalidChangeBatch''"
  shows "delete_unless_changed E config old record_type w =
           change_records E config old {} record_type w"
  using assms
  by (cases "change_records E config old {} record_type w"; cases e)
     (simp_all add: delete_unless_changed_def try_except_def raise_exn_def)

lemma delete_unless_changed_returns:
  assumes "fst (change_records E config old {} record_type w) = Inr ()"
  shows "delete_unless_changed E config old record_type w =
           change_records E config old {} record_type w"
  using assms
  by (cases "change_records E config old {} record_type w")
     (simp add: delete_unless_changed_def try_except_def)

lemma delete_unless_changed_calls:
  "calls (snd (delete_unless_changed E config old record_type w)) =
     calls (snd (change_records E config old {} record_type w))"
proof (cases "change_records E config old {} record_type w")
  case (Pair r w1)
  show ?thesis
  proof (cases r)
    case (Inr u)
    then show ?thesis using Pair by (simp add: delete_unless_changed_def try_except_def)
  next
    case (Inl e)
    then show ?thesis using Pair
      by (cases e)
         (simp_all add: delete_unless_changed_def try_except_def raise_exn_def log_record_def)
  qed
qed

lemma delete_unless_changed_never_conflict:
  "fst (delete_unless_changed E config old record_type w) \<noteq> Inl (ClientError ''InvalidChangeBatch'')"
proof (cases "change_records E config old {} record_type w")
  case (Pair r w1)
  show ?thesis
  proof (cases r)
    case (Inr u)
    then show ?thesis using Pair by (simp add: delete_unless_changed_def try_except_def)
  next
    case (Inl e)
    then show ?thesis using Pair
      by (cases e)
         (simp_all add: delete_unless_changed_def try_except_def raise_exn_def log_record_def)
  qed
qed

lemma bnd_ret_unit: "bnd m (\<lambda>_. ret ()) = (m :: unit prog)"
proof
  fix w
  show "bnd m (\<lambda>_. ret ()) w = m w"
    by (cases "m w") (auto simp: bnd_def ret_def split: sum.splits)
qed

lemma bnd_ret_right: "bnd m ret = m"
proof
  fix w
  show "bnd m ret w = m w"
    by (cases "m w") (auto simp: bnd_def ret_def split: sum.splits)
qed

lemma single_terminate_conflict_from_lookup:
  assumes "fst (single_terminate E config i w) = Inl (ClientError ''InvalidChangeBatch'')"
  shows "fst (fetch_ip_from_ec2 E i w) = Inl (ClientError ''InvalidChangeBatch'')"
proof (cases "fetch_ip_from_ec2 E i w")
  case (Pair r w1)
  show ?thesis
  proof (cases r)
    case (Inl e)
    then show ?thesis using assms Pair by (simp add: single_terminate_def bnd_def)
  next
    case (Inr ips)
    let ?first = "if fst ips \<noteq> {} then delete_unless_changed E config (fst ips) ''A''
                  else ret ()"
    let ?second = "if snd ips \<noteq> {} then delete_unless_changed E config (snd ips) ''AAAA''
                   else ret ()"
    have run: "single_terminate E config i w = bnd ?first (\<lambda>_. ?second) w1"
    proof -
      have p: "fetch_ip_from_ec2 E i w = (Inr ips, w1)" using Pair Inr by simp
      show ?thesis
        unfolding single_terminate_def bnd_Inr [where m = "fetch_ip_from_ec2 E i", OF p]
        by (simp add: bnd_ret_right bnd_ret_unit)
    qed
    have a: "fst (?first v) \<noteq> Inl (ClientError ''InvalidChangeBatch'')" for v
      using delete_unless_changed_never_conflict by (simp add: ret_def)
    have b: "fst (?second v) \<noteq> Inl (ClientError ''InvalidChangeBatch'')" for v
      using delete_unless_changed_never_conflict by (simp add: ret_def)
    have "fst (bnd ?first (\<lambda>_. ?second) w1) \<noteq> Inl (ClientError ''InvalidChangeBatch'')"
    proof (cases "?first w1")
      case (Pair r2 w2)
      then show ?thesis using a [of w1] b [of w2]
        by (cases r2) (simp_all add: bnd_def)
    qed
    then show ?thesis using assms run by simp
  qed
qed

text \<open>
  Claim C3, amended. In single mode a delete is issued only for a terminating instance,
  inside the \<^verbatim>\<open>try\<close> statement: it is one DELETE call of the addresses of that instance,
  never repeated; when the change is rejected as an invalid change batch the error is
  caught, one record is logged at info level, the directory is as it was and the
  processing goes on; any other exception of the change is propagated. A termination in
  single mode can therefore end with the invalid-change-batch error only when the lookup of
  the instance raised it.
\<close>

theorem single_mode_delete_conflict_swallowed:
  assumes "old \<noteq> {}"
  shows "calls (snd (delete_unless_changed E config old record_type w)) =
           calls w @ [ChangeResourceRecordSets (zone_id config) ''DELETE'' (hostname config)
                        record_type (ROUTE53_TTL E) old]
       \<and> (fst (change_records E config old {} record_type w) =
            Inl (ClientError ''InvalidChangeBatch'') \<longrightarrow>
          fst (delete_unless_changed E config old record_type w) = Inr ()
          \<and> last (logs (snd (delete_unless_changed E config old record_type w))) =
              (INFO, ''%s %s records have already been changed'')
          \<and> directory (snd (delete_unless_changed E config old record_type w)) = directory w)
       \<and> (\<forall>e. fst (change_records E config old {} record_type w) = Inl e
              \<and> e \<noteq> ClientError ''InvalidChangeBatch'' \<longrightarrow>
            fst (delete_unless_changed E config old record_type w) = Inl e)
       \<and> (fst (single_terminate E config i w) = Inl (ClientError ''InvalidChangeBatch'') \<longrightarrow>
            fst (fetch_ip_from_ec2 E i w) = Inl (ClientError ''InvalidChangeBatch''))"
proof (intro conjI impI allI)
  show "calls (snd (delete_unless_changed E config old record_type w)) =
           calls w @ [ChangeResourceRecordSets (zone_id config) ''DELETE'' (hostname config)
                        record_type (ROUTE53_TTL E) old]"
    using assms delete_unless_changed_calls [of E config old record_type w]
      change_records_calls [of E config old "{}" record_type w]
    by simp
next
  assume a: "fst (change_records E config old {} record_type w) =
            Inl (ClientError ''InvalidChangeBatch'')"
  then obtain w1 where b: "change_records E config old {} record_type w =
      (Inl (ClientError ''InvalidChangeBatch''), w1)"
    by (cases "change_records E config old {} record_type w") simp
  have c: "directory w1 = directory w"
    using change_records_failed [OF a] b by simp
  note d = delete_unless_changed_swallows [OF b]
  show "fst (delete_unless_changed E config old record_type w) = Inr ()"
    using d by simp
  show "last (logs (snd (delete_unless_changed E config old record_type w))) =
              (INFO, ''%s %s records have already been changed'')"
    using d by simp
  show "directory (snd (delete_unless_changed E config old record_type w)) = directory w"
    using d c by simp
next
  fix e
  assume "fst (change_records E config old {} record_type w) = Inl e
              \<and> e \<noteq> ClientError ''InvalidChangeBatch''"
  then show "fst (delete_unless_changed E config old record_type w) = Inl e"
    using delete_unless_changed_propagates [of E config old record_type w e] by simp
next
  assume "fst (single_terminate E config i w) = Inl (ClientError ''InvalidChangeBatch'')"
  then show "fst (fetch_ip_from_ec2 E i w) = Inl (ClientError ''InvalidChangeBatch'')"
    by (rule single_terminate_conflict_from_lookup)
qed

theorem single_mode_delete_conflict_swallowed_witness:
  "fst (change_records quiet_env (www_config ''single'') {''10.0.0.1''} {} ''A''
          (served_world ''A'' {''10.0.0.5''})) = Inl (ClientError ''InvalidChangeBatch'')
   \<and> calls (snd (delete_unless_changed quiet_env (www_config ''single'') {''10.0.0.1''} ''A''
                   (served_world ''A'' {''10.0.0.5''}))) =
       [ChangeResourceRecordSets ''Z1'' ''DELETE'' ''www.example.com'' ''A'' 60 {''10.0.0.1''}]
   \<and> fst (delete_unless_changed quiet_env (www_config ''single'') {''10.0.0.1''} ''A''
            (served_world ''A'' {''10.0.0.5''})) = Inr ()
   \<and> directory (snd (delete_unless_changed quiet_env (www_config ''single'') {''10.0.0.1''} ''A''
                       (served_world ''A'' {''10.0.0.5''})))
       (''Z1'', ''www.example.com.'', ''A'') = {''10.0.0.5''}"
proof -
  have old: "{''10.0.0.1''} \<noteq> ({} :: string set)" by simp
  have conflict: "fst (change_records quiet_env (www_config ''single'') {''10.0.0.1''} {} ''A''
          (served_world ''A'' {''10.0.0.5''})) = Inl (ClientError ''InvalidChangeBatch'')"
    by (simp add: example_defs served_world_def prog_defs const_defs code_defs)
  show ?thesis
    using conflict
      single_mode_delete_conflict_swallowed [OF old, of quiet_env "www_config ''single''"
        "''A''" "served_world ''A'' {''10.0.0.5''}" "''i-1''"]
    by (simp add: example_defs served_world_def)
qed

theorem multi_mode_delete_conflict_propagates_counterexample:
  "fst (process_message (faulty_env None (Some (ClientFault ''InvalidChangeBatch'')) None)
          (terminate_message ''web'' ''i-1'') (served_world ''A'' {''10.0.0.1''})) =
     Inl (ClientError ''InvalidChangeBatch'')
   \<and> filter is_dns_call
       (calls (snd (process_message
                      (faulty_env None (Some (ClientFault ''InvalidChangeBatch'')) None)
                      (terminate_message ''web'' ''i-1'') (served_world ''A'' {''10.0.0.1''})))) =
     [ListResourceRecordSets ''Z1'' ''www.example.com'' ''A'',
      ListResourceRecordSets ''Z1'' ''www.example.com'' ''AAAA'',
      ChangeResourceRecordSets ''Z1'' ''DELETE'' ''www.example.com'' ''A'' 60 {''10.0.0.1''}]"
  by (simp add: fleet_defs example_defs served_world_def prog_defs const_defs code_defs
      is_dns_call_def)

section \<open>Single mode: the launch of an instance\<close>

lemma filter_narrower:
  assumes "\<And>c. P c \<Longrightarrow> Q c" and "filter Q xs = filter Q ys"
  shows "filter P xs = filter P ys"
proof -
  have "filter P zs = filter P (filter Q zs)" for zs
    using assms(1) by (induction zs) auto
  then show ?thesis using assms(2) by metis
qed

lemma is_delete_call_dns: "is_delete_call c \<Longrightarrow> is_dns_call c"
  by (cases c) (simp_all add: is_delete_call_def is_dns_call_def)

lemma is_change_of_dns: "is_change_of kind c \<Longrightarrow> is_dns_call c"
  by (cases c) (simp_all add: is_change_of_def is_dns_call_def)

lemma change_records_keeps_deletes:
  "new \<noteq> {} \<Longrightarrow>
   preserves (\<lambda>w. filter is_delete_call (calls w)) (change_records E config old new record_type)"
  by (simp add: preserves_def change_records_calls is_delete_call_def)

lemma change_records_keeps_other_kind:
  "record_type \<noteq> kind \<Longrightarrow>
   preserves (\<lambda>w. (filter (is_change_of kind) (calls w), directory w (z, n, kind)))
     (change_records E config old new record_type)"
  by (simp add: preserves_def change_records_calls is_change_of_def change_records_elsewhere)

lemma single_launch_keeps_deletes:
  "preserves (\<lambda>w. filter is_delete_call (calls w)) (single_launch E config o4 o6 i)"
  unfolding single_launch_def
  by (intro preserves_bnd preserves_fetch_ip_from_ec2 preserves_for_each)
     (auto simp: is_delete_call_def intro: change_records_keeps_deletes)

lemma reconcile_launch_keeps_deletes:
  assumes "is_single config"
  shows "preserves (\<lambda>w. filter is_delete_call (calls w)) (reconcile E config asg l [])"
  unfolding reconcile_def using assms
  by (auto simp: is_delete_call_def
      intro!: preserves_bnd preserves_fetch_values_from_route53 preserves_for_each
        single_launch_keeps_deletes)

lemma single_launch_keeps_family:
  assumes "fst (fetch_ip_from_ec2 E i w0) = Inr (ipv4s, ipv6s)"
    and "kind = ''A'' \<and> ipv4s = {} \<or> kind = ''AAAA'' \<and> ipv6s = {}"
  shows "preserves (\<lambda>w. (filter (is_change_of kind) (calls w), directory w (z, n, kind)))
           (single_launch E config o4 o6 i)"
proof -
  let ?obs = "\<lambda>w. (filter (is_change_of kind) (calls w), directory w (z, n, kind))"
  let ?body = "\<lambda>(old, new, record_type).
          if new \<noteq> {} then change_records E config old new record_type else ret ()"
  have a: "single_launch E config o4 o6 i =
      bnd (fetch_ip_from_ec2 E i) (\<lambda>_.
        for_each [(o4, ipv4s, ''A''), (o6, ipv6s, ''AAAA'')] ?body)"
    unfolding single_launch_def
    using bnd_oblivious_result [OF oblivious_fetch_ip_from_ec2 assms(1),
        where f = "\<lambda>ips. for_each [(o4, fst ips, ''A''), (o6, snd ips, ''AAAA'')] ?body"]
    by simp
  have b: "preserves ?obs (?body (o4, ipv4s, ''A''))"
    using assms(2) by (auto intro: change_records_keeps_other_kind)
  have c: "preserves ?obs (?body (o6, ipv6s, ''AAAA''))"
    using assms(2) by (auto intro: change_records_keeps_other_kind)
  have d: "preserves ?obs (fetch_ip_from_ec2 E i)"
    by (rule preserves_fetch_ip_from_ec2) (simp_all add: is_change_of_def)
  have e: "preserves ?obs (for_each [(o4, ipv4s, ''A''), (o6, ipv6s, ''AAAA'')] ?body)"
    using b c by (simp add: preserves_bnd del: split_paired_All)
  show ?thesis
    unfolding a using d e by (intro preserves_bnd)
qed

lemma reconcile_launch_keeps_family:
  assumes "is_single config"
    and "fst (fetch_ip_from_ec2 E i w0) = Inr (ipv4s, ipv6s)"
    and "kind = ''A'' \<and> ipv4s = {} \<or> kind = ''AAAA'' \<and> ipv6s = {}"
  shows "preserves (\<lambda>w. (filter (is_change_of kind) (calls w), directory w (z, n, kind)))
           (reconcile E config asg [i] [])"
proof -
  let ?obs = "\<lambda>w. (filter (is_change_of kind) (calls w), directory w (z, n, kind))"
  have a: "preserves ?obs (fetch_values_from_route53 E config k)" for k
    by (rule preserves_fetch_values_from_route53) (simp_all add: is_change_of_def)
  have b: "preserves ?obs (single_launch E config o4 o6 i)" for o4 o6
    by (rule single_launch_keeps_family [OF assms(2,3)])
  show ?thesis
    unfolding reconcile_def using assms(1)
    by (simp add: bnd_ret_unit bnd_ret_right) (intro preserves_bnd a b)
qed


text \<open>
  Claim C4. In single mode a launch event issues no delete, whatever the instance and the
  directory are; and for a family the launched instance has no address of, it issues no
  change of that family at all, so the record set of that family, an existing AAAA record
  for instance, is what it was.
\<close>

theorem single_mode_launch_keeps_absent_family:
  assumes "message ''LifecycleTransition'' = Some ''autoscaling:EC2_INSTANCE_LAUNCHING''"
    and "message ''EC2InstanceId'' = Some i"
    and "message ''AutoScalingGroupName'' = Some asg"
    and "fst (from_asg_name E asg w) = Inr (Some config)"
    and "is_single config"
  shows "filter is_delete_call (calls (snd (process_message E message w))) =
           filter is_delete_call (calls w)
       \<and> (\<forall>ipv4s ipv6s kind.
            fst (fetch_ip_from_ec2 E i w) = Inr (ipv4s, ipv6s)
            \<and> (kind = ''A'' \<and> ipv4s = {} \<or> kind = ''AAAA'' \<and> ipv6s = {}) \<longrightarrow>
            filter (is_change_of kind) (calls (snd (process_message E message w))) =
              filter (is_change_of kind) (calls w)
            \<and> (\<forall>z n. directory (snd (process_message E message w)) (z, n, kind) =
                      directory w (z, n, kind)))"
proof -
  have classified: "fst (classify message ''autoscaling:EC2_INSTANCE_LAUNCHING'' w) =
      Inr (Some ([i], []))"
    using assms(2) by (simp add: classify_def subscript_def bnd_def ret_def)
  have tagged: "fst (for_each [] (set_terminating_tag E) w) = Inr ()"
    by (simp add: ret_def)
  obtain w' where frame: "dns_untouched w w'"
    and run: "process_message E message w = reconcile E config asg [i] [] w'"
    using process_message_reaches_reconcile [OF assms(1) classified tagged assms(3,4)]
    by blast
  have same_dir: "directory w' = directory w"
    and same_calls: "filter is_dns_call (calls w') = filter is_dns_call (calls w)"
    using frame by (simp_all add: dns_untouched_def)
  have deletes: "filter is_delete_call (calls (snd (process_message E message w))) =
           filter is_delete_call (calls w)"
    using preservesD [OF reconcile_launch_keeps_deletes [OF assms(5),
          where E = E and asg = asg and l = "[i]"], where w = w']
      filter_narrower [of is_delete_call is_dns_call, OF is_delete_call_dns same_calls]
    by (simp add: run)
  have family: "filter (is_change_of kind) (calls (snd (process_message E message w))) =
              filter (is_change_of kind) (calls w)
            \<and> (\<forall>z n. directory (snd (process_message E message w)) (z, n, kind) =
                      directory w (z, n, kind))"
    if looked: "fst (fetch_ip_from_ec2 E i w) = Inr (ipv4s, ipv6s)"
      and empty: "kind = ''A'' \<and> ipv4s = {} \<or> kind = ''AAAA'' \<and> ipv6s = {}"
    for ipv4s ipv6s kind
  proof (intro conjI allI)
    fix z n
    have kept: "(filter (is_change_of kind) (calls (snd (reconcile E config asg [i] [] w'))),
           directory (snd (reconcile E config asg [i] [] w')) (z, n, kind)) =
          (filter (is_change_of kind) (calls w'), directory w' (z, n, kind))"
      using preservesD [OF reconcile_launch_keeps_family [OF assms(5) looked empty,
          where z = z and n = n and asg = asg], where w = w']
      by simp
    have narrowed: "filter (is_change_of kind) (calls w') = filter (is_change_of kind) (calls w)"
      using filter_narrower [of "is_change_of kind" is_dns_call, OF is_change_of_dns same_calls]
      by simp
    show "filter (is_change_of kind) (calls (snd (process_message E message w))) =
              filter (is_change_of kind) (calls w)"
      using kept narrowed by (simp add: run)
    show "directory (snd (process_message E message w)) (z, n, kind) = directory w (z, n, kind)"
      using kept same_dir by (simp add: run)
  qed
  show ?thesis using deletes family by blast
qed

theorem single_mode_launch_keeps_absent_family_witness:
  "fst (from_asg_name single_env ''web'' (served_world ''AAAA'' {''2001:db8::9''})) =
     Inr (Some (www_config ''single''))
   \<and> fst (fetch_ip_from_ec2 single_env ''i-1'' (served_world ''AAAA'' {''2001:db8::9''})) =
       Inr ({''10.0.0.1''}, {})
   \<and> filter is_delete_call
       (calls (snd (process_message single_env (launch_message ''web'' ''i-1'')
                      (served_world ''AAAA'' {''2001:db8::9''})))) = []
   \<and> filter (is_change_of ''AAAA'')
       (calls (snd (process_message single_env (launch_message ''web'' ''i-1'')
                      (served_world ''AAAA'' {''2001:db8::9''})))) = []
   \<and> directory (snd (process_message single_env (launch_message ''web'' ''i-1'')
                       (served_world ''AAAA'' {''2001:db8::9''})))
       (''Z1'', ''www.example.com.'', ''AAAA'') = {''2001:db8::9''}
   \<and> directory (snd (process_message single_env (launch_message ''web'' ''i-1'')
                       (served_world ''AAAA'' {''2001:db8::9''})))
       (''Z1'', ''www.example.com.'', ''A'') = {''10.0.0.1''}"
proof -
  let ?W = "served_world ''AAAA'' {''2001:db8::9''}"
  have a1: "launch_message ''web'' ''i-1'' ''LifecycleTransition'' =
      Some ''autoscaling:EC2_INSTANCE_LAUNCHING''"
    and a2: "launch_message ''web'' ''i-1'' ''EC2InstanceId'' = Some ''i-1''"
    and a3: "launch_message ''web'' ''i-1'' ''AutoScalingGroupName'' = Some ''web''"
    by (simp_all add: launch_message_def)
  have a4: "fst (from_asg_name single_env ''web'' ?W) = Inr (Some (www_config ''single''))"
    by (simp add: single_env_def fleet_defs example_defs served_world_def prog_defs const_defs
        code_defs)
  have a5: "is_single (www_config ''single'')"
    by (simp add: www_config_def is_single_def MODE_SINGLE_def)
  have looked: "fst (fetch_ip_from_ec2 single_env ''i-1'' ?W) = Inr ({''10.0.0.1''}, {})"
    by (simp add: single_env_def fleet_defs example_defs served_world_def prog_defs const_defs
        code_defs)
  have upsert: "directory (snd (process_message single_env (launch_message ''web'' ''i-1'') ?W))
       (''Z1'', ''www.example.com.'', ''A'') = {''10.0.0.1''}"
    by (simp add: single_env_def fleet_defs example_defs served_world_def prog_defs const_defs
        code_defs)
  have before: "calls ?W = []"
    and stored: "directory ?W (''Z1'', ''www.example.com.'', ''AAAA'') = {''2001:db8::9''}"
    by (simp_all add: served_world_def)
  note main = single_mode_launch_keeps_absent_family [OF a1 a2 a3 a4 a5]
  have deletes: "filter is_delete_call
       (calls (snd (process_message single_env (launch_message ''web'' ''i-1'') ?W))) = []"
    using main before by simp
  have family: "filter (is_change_of ''AAAA'')
       (calls (snd (process_message single_env (launch_message ''web'' ''i-1'') ?W))) = []
     \<and> directory (snd (process_message single_env (launch_message ''web'' ''i-1'') ?W))
       (''Z1'', ''www.example.com.'', ''AAAA'') = {''2001:db8::9''}"
    using main looked before stored by simp
  show ?thesis using a4 looked deletes family upsert by simp
qed

end
